theory Spec2Isabelle
  imports Main "HOL-Library.Sublist"
begin

section \<open>Outcomes of Go code\<close>

text \<open>
  A Go call either returns, returns a non-nil \<open>error\<close>, or panics. The three outcomes
  are kept apart: an error is a value the caller inspects, a panic unwinds the goroutine
  and (unrecovered, as everywhere in this program) ends the process.
\<close>

datatype panic =
    IndexOutOfRange nat nat   \<comment> \<open>index, length\<close>
  | SliceOutOfRange nat nat   \<comment> \<open>low bound, length\<close>
  | NilDereference

datatype error =
    ErrOpeningCsv
  | ErrReadingCsv
  | ErrSendingRequest
  | ErrUnexpectedResponse int
  | ErrDecodingBody
  | ErrMarshal

datatype 'a go_result = Panicked panic | Failed error | Returned 'a

fun andThen :: "'a go_result \<Rightarrow> ('a \<Rightarrow> 'b go_result) \<Rightarrow> 'b go_result" where
  "andThen (Returned x) k = k x"
| "andThen (Failed e) k = Failed e"
| "andThen (Panicked p) k = Panicked p"

text \<open>\<open>xs[i]\<close> and \<open>xs[i:]\<close> on a slice, with the run-time bounds checks of Go.\<close>

definition index :: "'a list \<Rightarrow> nat \<Rightarrow> 'a go_result" where
  "index xs i = (if i < length xs then Returned (xs ! i) else Panicked (IndexOutOfRange i (length xs)))"

definition sliceFrom :: "'a list \<Rightarrow> nat \<Rightarrow> 'a list go_result" where
  "sliceFrom xs i = (if i \<le> length xs then Returned (drop i xs) else Panicked (SliceOutOfRange i (length xs)))"

section \<open>Strings\<close>

definition unixRefSetPrefix :: string where
  "unixRefSetPrefix = ''Managed UNIX Devices - ''"

text \<open>\<open>strings.Join(elems, sep)\<close>.\<close>

fun Join :: "string list \<Rightarrow> string \<Rightarrow> string" where
  "Join [] sep = []"
| "Join [x] sep = x"
| "Join (x # y # ys) sep = x @ sep @ Join (y # ys) sep"

text \<open>\<open>strings.HasPrefix(s, prefix)\<close>: \<open>len(s) >= len(prefix) && s[:len(prefix)] == prefix\<close>.\<close>

definition HasPrefix :: "string \<Rightarrow> string \<Rightarrow> bool" where
  "HasPrefix s p = (length p \<le> length s \<and> take (length p) s = p)"

section \<open>Group Extractor\<close>

text \<open>
  The desired mapping \<open>map[string][]string\<close>. Reading a missing key yields the nil slice,
  to which \<open>append\<close> appends as to the empty one.
\<close>

type_synonym groups = "string \<rightharpoonup> string list"

definition members :: "groups \<Rightarrow> string \<Rightarrow> string list" where
  "members groups g = (case groups g of None \<Rightarrow> [] | Some xs \<Rightarrow> xs)"

text \<open>
  The body of the loop of \<open>extractServerGroups\<close> for a data row:
  \<^verbatim>\<open>
    g = unixRefSetPrefix + line[2]
    groups[g] = append(groups[g], line[1])
    g = unixRefSetPrefix + strings.Join(line[2:], " - ")
    groups[g] = append(groups[g], line[1])
  \<close>
  Every index expression is checked where the code evaluates it.
\<close>

definition addLine :: "groups \<Rightarrow> string list \<Rightarrow> groups go_result" where
  "addLine groups line =
     andThen (index line 2) (\<lambda>c2.
       let g = unixRefSetPrefix @ c2 in
       andThen (index line 1) (\<lambda>c1.
         let groups1 = groups(g \<mapsto> members groups g @ [c1]) in
         andThen (sliceFrom line 2) (\<lambda>rest.
           let g' = unixRefSetPrefix @ Join rest '' - '' in
           andThen (index line 1) (\<lambda>c1'.
             Returned (groups1(g' \<mapsto> members groups1 g' @ [c1']))))))"

text \<open>\<open>for i, line := range lines { if i == 0 { continue }; ... }\<close>, from index \<open>i\<close> on.\<close>

fun rangeLines :: "nat \<Rightarrow> string list list \<Rightarrow> groups \<Rightarrow> groups go_result" where
  "rangeLines i [] groups = Returned groups"
| "rangeLines i (line # lines) groups =
     (if i = 0 then rangeLines (i + 1) lines groups
      else andThen (addLine groups line) (rangeLines (i + 1) lines))"

text \<open>
  The file system and \<open>encoding/csv\<close> are outside the program: what \<open>os.Open\<close> followed by
  \<open>reader.ReadAll()\<close> gives for a file name is a parameter of the model.
\<close>

datatype file_read = OpenFails | ReadAllFails | Records "string list list"

definition extractServerGroups :: "(string \<Rightarrow> file_read) \<Rightarrow> string \<Rightarrow> groups go_result" where
  "extractServerGroups fs fileName =
     (case fs fileName of
        OpenFails \<Rightarrow> Failed ErrOpeningCsv
      | ReadAllFails \<Rightarrow> Failed ErrReadingCsv
      | Records lines \<Rightarrow> rangeLines 0 lines Map.empty)"

text \<open>
  What \<open>ReadAll\<close> of a \<open>csv.Reader\<close> with its default settings can return without an
  error: every record has at least one field, and (\<open>FieldsPerRecord = 0\<close>) every record
  has as many fields as the first.
\<close>

definition csvAccepted :: "string list list \<Rightarrow> bool" where
  "csvAccepted lines =
     (case lines of
        [] \<Rightarrow> True
      | first # rest \<Rightarrow> first \<noteq> [] \<and> list_all (\<lambda>r. length r = length first) rest)"

text \<open>The two group names of a row, in the words of the contract.\<close>

definition coarseName :: "string list \<Rightarrow> string" where
  "coarseName line = unixRefSetPrefix @ line ! 2"

definition fineName :: "string list \<Rightarrow> string" where
  "fineName line = unixRefSetPrefix @ Join (drop 2 line) '' - ''"



section \<open>The qradar client\<close>

record DeletionTask =
  ID :: int
  Created :: int
  Started :: int
  Modified :: int
  Completed :: int
  Name :: string
  Status :: string
  Message :: string
  CreatedBy :: string

record ReferenceSet =
  Name :: string
  ElementType :: string
  TimeoutType :: string
  TimeToLive :: string
  CreationTime :: int
  NumberOfElements :: int

text \<open>The client's \<open>httpClient\<close> is the transport of the environment below.\<close>

record Client =
  BaseURL :: string
  SecToken :: string

definition NewClient :: "string \<Rightarrow> string \<Rightarrow> Client" where
  "NewClient baseURL secToken = \<lparr>BaseURL = baseURL, SecToken = secToken\<rparr>"

record http_request =
  Method :: string
  URL :: string
  Header :: "(string \<times> string) list"
  Body :: "string option"

datatype http_reply = NoResponse | Response int string   \<comment> \<open>status code, body\<close>

text \<open>
  The wire is the sequence of requests handed to \<open>httpClient.Do\<close> so far. The remote
  store, the standard library and the toolchain are the environment: the transport
  answers a request knowing everything sent before it, and URL parsing, query escaping
  and the JSON codec are functions the program calls but does not define.

  The source files fix no language version (there is no \<open>go.mod\<close> among them), and the
  meaning of a \<open>for ... := range\<close> loop depends on it: before Go 1.22 the loop declares its
  variables once for the whole loop, from Go 1.22 on it declares fresh ones in every
  iteration. Which of the two holds is a parameter of the model.
\<close>

type_synonym wire = "http_request list"

datatype loopvar = PerLoop | PerIteration

record env =
  loopVar :: loopvar
  transport :: "wire \<Rightarrow> http_request \<Rightarrow> http_reply"
  newRequestOK :: "string \<Rightarrow> string \<Rightarrow> bool"
  QueryEscape :: "string \<Rightarrow> string"
  jsonMarshal :: "string list \<Rightarrow> string option"
  decodeReferenceSets :: "string \<Rightarrow> ReferenceSet list option"
  decodeReferenceSet :: "string \<Rightarrow> ReferenceSet option"
  decodeDeletionTask :: "string \<Rightarrow> DeletionTask option"

text \<open>
  \<open>req, err := http.NewRequest(...)\<close>: the client discards \<open>err\<close>, so on failure \<open>req\<close>
  is nil (\<open>None\<close>) and the \<open>req.Header.Add\<close> that follows dereferences it.
\<close>

definition NewRequest :: "env \<Rightarrow> string \<Rightarrow> string \<Rightarrow> string option \<Rightarrow> http_request option" where
  "NewRequest w m u b =
     (if newRequestOK w m u then Some \<lparr>Method = m, URL = u, Header = [], Body = b\<rparr> else None)"

definition HeaderAdd :: "http_request \<Rightarrow> string \<Rightarrow> string \<Rightarrow> http_request" where
  "HeaderAdd req k v = req\<lparr>Header := Header req @ [(k, v)]\<rparr>"

definition Do :: "env \<Rightarrow> http_request \<Rightarrow> wire \<Rightarrow> http_reply \<times> wire" where
  "Do w req h = (transport w h req, h @ [req])"

text \<open>The verbs \<open>%v\<close> of a bool and \<open>%d\<close> of an int in \<open>fmt.Sprintf\<close>.\<close>

definition fmtBool :: "bool \<Rightarrow> string" where
  "fmtBool b = (if b then ''true'' else ''false'')"

fun fmtNat :: "nat \<Rightarrow> string" where
  "fmtNat n = (if n < 10 then [char_of (48 + n)] else fmtNat (n div 10) @ [char_of (48 + n mod 10)])"

definition fmtInt :: "int \<Rightarrow> string" where
  "fmtInt i = (if i < 0 then CHR ''-'' # fmtNat (nat (- i)) else fmtNat (nat i))"

definition ReferenceSets :: "env \<Rightarrow> Client \<Rightarrow> wire \<Rightarrow> ReferenceSet list go_result \<times> wire" where
  "ReferenceSets w c h =
     (case NewRequest w ''GET'' (BaseURL c @ ''/api/reference_data/sets'') None of
        None \<Rightarrow> (Panicked NilDereference, h)
      | Some req0 \<Rightarrow>
          let req = HeaderAdd (HeaderAdd (HeaderAdd req0 ''Version'' ''9.1'') ''SEC'' (SecToken c))
                      ''Accept'' ''application/json'' in
          (case Do w req h of
             (NoResponse, h') \<Rightarrow> (Failed ErrSendingRequest, h')
           | (Response code body, h') \<Rightarrow>
               (case decodeReferenceSets w body of
                  None \<Rightarrow> (Failed ErrDecodingBody, h')
                | Some refSets \<Rightarrow> (Returned refSets, h'))))"

definition CreateReferenceSet :: "env \<Rightarrow> Client \<Rightarrow> string \<Rightarrow> wire \<Rightarrow> ReferenceSet go_result \<times> wire" where
  "CreateReferenceSet w c name h =
     (let url = BaseURL c @ ''/api/reference_data/sets?name='' @ QueryEscape w name @ ''&element_type=IP'' in
      case NewRequest w ''POST'' url None of
        None \<Rightarrow> (Panicked NilDereference, h)
      | Some req0 \<Rightarrow>
          let req = HeaderAdd (HeaderAdd (HeaderAdd req0 ''Version'' ''9.1'') ''SEC'' (SecToken c))
                      ''Accept'' ''application/json'' in
          (case Do w req h of
             (NoResponse, h') \<Rightarrow> (Failed ErrSendingRequest, h')
           | (Response code body, h') \<Rightarrow>
               if code \<noteq> 201 then (Failed (ErrUnexpectedResponse code), h')
               else (case decodeReferenceSet w body of
                       None \<Rightarrow> (Failed ErrDecodingBody, h')
                     | Some refSet \<Rightarrow> (Returned refSet, h'))))"

definition BulkLoadReferenceSet ::
    "env \<Rightarrow> Client \<Rightarrow> string \<Rightarrow> string list \<Rightarrow> wire \<Rightarrow> ReferenceSet go_result \<times> wire" where
  "BulkLoadReferenceSet w c name servers h =
     (let url = BaseURL c @ ''/api/reference_data/sets/bulk_load/'' @ QueryEscape w name in
      case jsonMarshal w servers of
        None \<Rightarrow> (Failed ErrMarshal, h)
      | Some body \<Rightarrow>
          (case NewRequest w ''POST'' url (Some body) of
             None \<Rightarrow> (Panicked NilDereference, h)
           | Some req0 \<Rightarrow>
               let req = HeaderAdd (HeaderAdd (HeaderAdd (HeaderAdd req0 ''Version'' ''9.1'')
                           ''SEC'' (SecToken c)) ''Accept'' ''application/json'')
                           ''Content-Type'' ''application/json'' in
               (case Do w req h of
                  (NoResponse, h') \<Rightarrow> (Failed ErrSendingRequest, h')
                | (Response code rbody, h') \<Rightarrow>
                    if code \<noteq> 200 then (Failed (ErrUnexpectedResponse code), h')
                    else (case decodeReferenceSet w rbody of
                            None \<Rightarrow> (Failed ErrDecodingBody, h')
                          | Some refSet \<Rightarrow> (Returned refSet, h')))))"

definition DeleteReferenceSet ::
    "env \<Rightarrow> Client \<Rightarrow> string \<Rightarrow> bool \<Rightarrow> wire \<Rightarrow> DeletionTask go_result \<times> wire" where
  "DeleteReferenceSet w c name purgeOnly h =
     (let url = BaseURL c @ ''/api/reference_data/sets/'' @ QueryEscape w name
                  @ ''?purge_only='' @ fmtBool purgeOnly in
      case NewRequest w ''DELETE'' url None of
        None \<Rightarrow> (Panicked NilDereference, h)
      | Some req0 \<Rightarrow>
          let req = HeaderAdd (HeaderAdd (HeaderAdd req0 ''Version'' ''9.1'') ''SEC'' (SecToken c))
                      ''Accept'' ''application/json'' in
          (case Do w req h of
             (NoResponse, h') \<Rightarrow> (Failed ErrSendingRequest, h')
           | (Response code body, h') \<Rightarrow>
               if code \<noteq> 202 then (Failed (ErrUnexpectedResponse code), h')
               else (case decodeDeletionTask w body of
                       None \<Rightarrow> (Failed ErrDecodingBody, h')
                     | Some task \<Rightarrow> (Returned task, h'))))"

definition DeleteReferenceSetTaskStatus ::
    "env \<Rightarrow> Client \<Rightarrow> int \<Rightarrow> wire \<Rightarrow> DeletionTask go_result \<times> wire" where
  "DeleteReferenceSetTaskStatus w c taskID h =
     (let url = BaseURL c @ ''/api/reference_data/set_delete_tasks/'' @ fmtInt taskID in
      case NewRequest w ''GET'' url None of
        None \<Rightarrow> (Panicked NilDereference, h)
      | Some req0 \<Rightarrow>
          let req = HeaderAdd (HeaderAdd (HeaderAdd req0 ''Version'' ''9.1'') ''SEC'' (SecToken c))
                      ''Accept'' ''application/json'' in
          (case Do w req h of
             (NoResponse, h') \<Rightarrow> (Failed ErrSendingRequest, h')
           | (Response code body, h') \<Rightarrow>
               if code \<noteq> 200 then (Failed (ErrUnexpectedResponse code), h')
               else (case decodeDeletionTask w body of
                       None \<Rightarrow> (Failed ErrDecodingBody, h')
                     | Some task \<Rightarrow> (Returned task, h'))))"

section \<open>The reconciler\<close>

subsection \<open>Process exit\<close>

text \<open>
  \<open>os.Exit(code)\<close> ends the process at once, so it has no effect on a process that has
  already exited. \<open>log.Fatalf\<close> is \<open>Printf\<close> followed by \<open>os.Exit(1)\<close>. An unrecovered
  panic ends the process with status 2. A \<open>main\<close> that returns exits with status 0.
\<close>

datatype process = Running | Exited int

definition os_Exit :: "int \<Rightarrow> process \<Rightarrow> process" where
  "os_Exit code p = (case p of Running \<Rightarrow> Exited code | Exited c \<Rightarrow> Exited c)"

definition log_Fatalf :: "process \<Rightarrow> process" where
  "log_Fatalf p = os_Exit 1 p"

definition unrecovered :: "panic \<Rightarrow> process \<Rightarrow> process" where
  "unrecovered pn p = (case p of Running \<Rightarrow> Exited 2 | Exited c \<Rightarrow> Exited c)"

subsection \<open>Remote state\<close>

text \<open>
  \<^verbatim>\<open>
    unixRefSets := make(map[string]*qradar.ReferenceSet)
    for _, set := range allRefSets {
      if name := set.Name; strings.HasPrefix(name, unixRefSetPrefix) {
        unixRefSets[name] = &set
      }
    }
  \<close>
  The map holds pointers, so the model has a store. \<open>rangeRefSets lv a\<close> is the loop
  from an iteration on whose variable \<open>set\<close> lives at the address \<open>a\<close>: the iteration
  assigns the next element to it and, for a managed name, stores \<open>&set\<close>, that is \<open>a\<close>.
  The variable of the next iteration is the same one (\<open>PerLoop\<close>, Go before 1.22) or a
  fresh one (\<open>PerIteration\<close>, Go 1.22 and later).
\<close>

type_synonym addr = nat

record remote_state =
  refs :: "string \<rightharpoonup> addr"
  store :: "addr \<rightharpoonup> ReferenceSet"

fun rangeRefSets :: "loopvar \<Rightarrow> addr \<Rightarrow> ReferenceSet list \<Rightarrow> remote_state \<Rightarrow> remote_state" where
  "rangeRefSets lv a [] st = st"
| "rangeRefSets lv a (x # xs) st =
     (let st1 = st\<lparr>store := (store st)(a \<mapsto> x)\<rparr>;
          name = ReferenceSet.Name x
      in rangeRefSets lv (case lv of PerLoop \<Rightarrow> a | PerIteration \<Rightarrow> Suc a) xs
           (if HasPrefix name unixRefSetPrefix then st1\<lparr>refs := (refs st1)(name \<mapsto> a)\<rparr> else st1))"

definition unixRefSetsOf :: "loopvar \<Rightarrow> ReferenceSet list \<Rightarrow> remote_state" where
  "unixRefSetsOf lv allRefSets = rangeRefSets lv 0 allRefSets \<lparr>refs = Map.empty, store = Map.empty\<rparr>"

text \<open>\<open>*unixRefSets[name]\<close>: the metadata a name maps to.\<close>

definition metadataOf :: "remote_state \<Rightarrow> string \<Rightarrow> ReferenceSet option" where
  "metadataOf st name = (case refs st name of None \<Rightarrow> None | Some a \<Rightarrow> store st a)"

subsection \<open>Polling a deletion task\<close>

text \<open>
  \<^verbatim>\<open>
    for retry := 5; task.Status != "COMPLETED" && retry > 0; retry-- {
      task, err = qRadar.DeleteReferenceSetTaskStatus(task.ID)
      if err != nil { log.Fatalf(...); return }
      log.Printf(...)
      if task.Status != "COMPLETED" { time.Sleep(1 * time.Second) }
    }
  \<close>
  The loop stands twice in \<open>main\<close>, for a purge and for a deletion, with different log
  texts only. \<open>pollLoop retry task\<close> is the loop from a value of \<open>retry\<close> on; it returns
  the task the loop ends with, or the failure of a lookup. Log lines and the sleep send
  nothing and are left out.
\<close>

function pollLoop :: "env \<Rightarrow> Client \<Rightarrow> int \<Rightarrow> DeletionTask \<Rightarrow> wire \<Rightarrow> DeletionTask go_result \<times> wire" where
  "pollLoop w qRadar retry task h =
     (if Status task \<noteq> ''COMPLETED'' \<and> retry > 0 then
        (case DeleteReferenceSetTaskStatus w qRadar (ID task) h of
           (Returned task', h') \<Rightarrow> pollLoop w qRadar (retry - 1) task' h'
         | (Failed err, h') \<Rightarrow> (Failed err, h')
         | (Panicked pn, h') \<Rightarrow> (Panicked pn, h'))
      else (Returned task, h))"
  by pat_completeness auto
termination
  by (relation "measure (\<lambda>(w, qRadar, retry, task, h). nat retry)") auto

declare pollLoop.simps [simp del]

subsection \<open>The units of work\<close>

text \<open>
  \<open>main\<close> starts one goroutine per unit of work and waits for all of them. The goroutines
  share the client and read the two mappings, which nothing writes once they run. A unit
  is modelled on its own, as the function from the wire it finds to the wire it leaves:
  the transport may answer any request in any way, which covers whatever the other units
  do to the remote store meanwhile. A unit that calls \<open>log.Fatalf\<close> or panics ends the
  whole process and so cuts the other units short; what such a unit has sent by then is a
  prefix of what it sends when it runs to its end.

  How a goroutine of \<open>main\<close> ends: it returns, it calls \<open>log.Fatalf\<close> (which ends the
  whole process with status 1), or it panics.
\<close>

datatype fatal =
    ErrorPurging error
  | ErrorPollingPurge error
  | TimeoutPurging string
  | ErrorCreating error
  | ErrorBulkloading error
  | ErrorDeleting error
  | ErrorPollingDelete error
  | TimeoutDeleting string

datatype unit_end = Finished | LogFatal fatal | Crashed panic

text \<open>
  The goroutine started for a desired group: \<open>go func(name string, servers []string)\<close>.
  Both branches of its \<open>if\<close> fall through to the same last step, the bulk load.
\<close>

definition bulkLoadStep :: "env \<Rightarrow> Client \<Rightarrow> string \<Rightarrow> string list \<Rightarrow> wire \<Rightarrow> unit_end \<times> wire" where
  "bulkLoadStep w qRadar name servers h =
     (case BulkLoadReferenceSet w qRadar name servers h of
        (Panicked pn, h') \<Rightarrow> (Crashed pn, h')
      | (Failed err, h') \<Rightarrow> (LogFatal (ErrorBulkloading err), h')
      | (Returned rs, h') \<Rightarrow> (Finished, h'))"

definition syncGroup ::
    "env \<Rightarrow> Client \<Rightarrow> (string \<rightharpoonup> addr) \<Rightarrow> string \<Rightarrow> string list \<Rightarrow> wire \<Rightarrow> unit_end \<times> wire" where
  "syncGroup w qRadar unixRefSets name servers h =
     (if unixRefSets name \<noteq> None then
        (case DeleteReferenceSet w qRadar name True h of
           (Panicked pn, h1) \<Rightarrow> (Crashed pn, h1)
         | (Failed err, h1) \<Rightarrow> (LogFatal (ErrorPurging err), h1)
         | (Returned task, h1) \<Rightarrow>
             (case pollLoop w qRadar 5 task h1 of
                (Panicked pn, h2) \<Rightarrow> (Crashed pn, h2)
              | (Failed err, h2) \<Rightarrow> (LogFatal (ErrorPollingPurge err), h2)
              | (Returned task', h2) \<Rightarrow>
                  if Status task' \<noteq> ''COMPLETED'' then (LogFatal (TimeoutPurging (Status task')), h2)
                  else bulkLoadStep w qRadar name servers h2))
      else
        (case CreateReferenceSet w qRadar name h of
           (Panicked pn, h1) \<Rightarrow> (Crashed pn, h1)
         | (Failed err, h1) \<Rightarrow> (LogFatal (ErrorCreating err), h1)
         | (Returned rs, h1) \<Rightarrow> bulkLoadStep w qRadar name servers h1))"

text \<open>The goroutine started for a remote managed set that is not desired: \<open>go func(name string)\<close>.\<close>

definition deleteOrphan :: "env \<Rightarrow> Client \<Rightarrow> string \<Rightarrow> wire \<Rightarrow> unit_end \<times> wire" where
  "deleteOrphan w qRadar name h =
     (case DeleteReferenceSet w qRadar name False h of
        (Panicked pn, h1) \<Rightarrow> (Crashed pn, h1)
      | (Failed err, h1) \<Rightarrow> (LogFatal (ErrorDeleting err), h1)
      | (Returned task, h1) \<Rightarrow>
          (case pollLoop w qRadar 5 task h1 of
             (Panicked pn, h2) \<Rightarrow> (Crashed pn, h2)
           | (Failed err, h2) \<Rightarrow> (LogFatal (ErrorPollingDelete err), h2)
           | (Returned task', h2) \<Rightarrow>
               if Status task' \<noteq> ''COMPLETED'' then (LogFatal (TimeoutDeleting (Status task')), h2)
               else (Finished, h2)))"

subsection \<open>Fan-out\<close>

text \<open>
  \<open>range\<close> over a Go map visits every key once, in an order the language leaves open:
  an enumeration of a map is any duplicate-free list of its entries.
\<close>

definition rangeMap :: "('k \<rightharpoonup> 'v) \<Rightarrow> ('k \<times> 'v) list \<Rightarrow> bool" where
  "rangeMap m kvs = (distinct (map fst kvs) \<and> map_of kvs = m)"

datatype unit_of_work = SyncGroup string "string list" | DeleteOrphan string

text \<open>
  The goroutines the two loops of \<open>main\<close> start, in the order they are started, given the
  order in which each loop visits its map. The second loop skips (\<open>continue\<close>) every name
  that is a key of \<open>serverGroups\<close>.
\<close>

definition spawned ::
    "groups \<Rightarrow> (string \<times> string list) list \<Rightarrow> (string \<times> addr) list \<Rightarrow> unit_of_work list" where
  "spawned serverGroups desiredOrder remoteOrder =
     map (\<lambda>(group, servers). SyncGroup group servers) desiredOrder
     @ map DeleteOrphan (filter (\<lambda>name. serverGroups name = None) (map fst remoteOrder))"

definition runUnit :: "env \<Rightarrow> Client \<Rightarrow> (string \<rightharpoonup> addr) \<Rightarrow> unit_of_work \<Rightarrow> wire \<Rightarrow> unit_end \<times> wire" where
  "runUnit w qRadar unixRefSets u h =
     (case u of
        SyncGroup name servers \<Rightarrow> syncGroup w qRadar unixRefSets name servers h
      | DeleteOrphan name \<Rightarrow> deleteOrphan w qRadar name h)"

subsection \<open>Pre-flight of main\<close>

text \<open>
  \<open>main\<close> up to the fan-out, from the values of the flags \<open>url\<close>, \<open>file\<close> and \<open>token\<close> once
  \<open>flag.Parse\<close> has returned: the configuration check, the extraction and the listing.
  It ends the process, or it leaves it running with the two mappings the goroutines read.
  \<^verbatim>\<open>
    serverGroups, err := extractServerGroups(*file)
    if err != nil {
      log.Fatalf("error extracting server groups: %v", err)
      os.Exit(2)
    }
  \<close>
  and likewise, with \<open>os.Exit(3)\<close>, for \<open>qRadar.ReferenceSets()\<close>.
\<close>

record plan =
  desired :: groups
  client :: Client
  remote :: remote_state

definition preflight ::
    "env \<Rightarrow> (string \<Rightarrow> file_read) \<Rightarrow> string \<Rightarrow> string \<Rightarrow> string \<Rightarrow> wire \<Rightarrow> process \<times> plan option \<times> wire" where
  "preflight w fs url file token h =
     (if url = [] \<or> token = [] then (os_Exit 1 Running, None, h)
      else
        (case extractServerGroups fs file of
           Panicked pn \<Rightarrow> (unrecovered pn Running, None, h)
         | Failed err \<Rightarrow> (os_Exit 2 (log_Fatalf Running), None, h)
         | Returned sg \<Rightarrow>
             let q = NewClient url token in
             (case ReferenceSets w q h of
                (Panicked pn, h') \<Rightarrow> (unrecovered pn Running, None, h')
              | (Failed err, h') \<Rightarrow> (os_Exit 3 (log_Fatalf Running), None, h')
              | (Returned allRefSets, h') \<Rightarrow>
                  (Running, Some \<lparr>desired = sg, client = q, remote = unixRefSetsOf (loopVar w) allRefSets\<rparr>, h'))))"

section \<open>Classifying requests on the wire\<close>

text \<open>The requests a piece of code added to the wire \<open>h\<close>, given the wire \<open>h'\<close> it left.\<close>

definition sentBy :: "wire \<Rightarrow> wire \<Rightarrow> wire" where
  "sentBy h h' = drop (length h) h'"

definition deleteURL :: "env \<Rightarrow> Client \<Rightarrow> string \<Rightarrow> bool \<Rightarrow> string" where
  "deleteURL w c name purgeOnly =
     BaseURL c @ ''/api/reference_data/sets/'' @ QueryEscape w name @ ''?purge_only='' @ fmtBool purgeOnly"

definition isDelete :: "env \<Rightarrow> Client \<Rightarrow> string \<Rightarrow> bool \<Rightarrow> http_request \<Rightarrow> bool" where
  "isDelete w c name purgeOnly r = (Method r = ''DELETE'' \<and> URL r = deleteURL w c name purgeOnly)"

definition isFullDelete :: "http_request \<Rightarrow> bool" where
  "isFullDelete r = (Method r = ''DELETE'' \<and> suffix ''?purge_only=false'' (URL r))"

definition statusURL :: "Client \<Rightarrow> int \<Rightarrow> string" where
  "statusURL c taskID = BaseURL c @ ''/api/reference_data/set_delete_tasks/'' @ fmtInt taskID"

definition isStatusLookupFor :: "Client \<Rightarrow> int \<Rightarrow> http_request \<Rightarrow> bool" where
  "isStatusLookupFor c taskID r = (Method r = ''GET'' \<and> URL r = statusURL c taskID)"

definition isStatusLookup :: "Client \<Rightarrow> http_request \<Rightarrow> bool" where
  "isStatusLookup c r =
     (Method r = ''GET'' \<and> prefix (BaseURL c @ ''/api/reference_data/set_delete_tasks/'') (URL r))"

definition isBulkLoad :: "Client \<Rightarrow> http_request \<Rightarrow> bool" where
  "isBulkLoad c r =
     (Method r = ''POST'' \<and> prefix (BaseURL c @ ''/api/reference_data/sets/bulk_load/'') (URL r))"

section \<open>A sample environment\<close>

text \<open>
  A remote store to run the units against: a deletion is accepted and queued, a status
  lookup reports \<open>PROCESSING\<close> until \<open>n\<close> requests are on the wire and \<open>COMPLETED\<close> from
  then on, a creation and a bulk load succeed. The body of a task reply is its status.
\<close>

definition sampleTask :: "string \<Rightarrow> DeletionTask" where
  "sampleTask status = \<lparr>ID = 7, Created = 0, Started = 0, Modified = 0, Completed = 0,
     Name = ''delete'', Status = status, Message = [], CreatedBy = ''admin''\<rparr>"

definition sampleSet :: "string \<Rightarrow> ReferenceSet" where
  "sampleSet name = \<lparr>Name = name, ElementType = ''IP'', TimeoutType = ''UNKNOWN'', TimeToLive = [],
     CreationTime = 0, NumberOfElements = 0\<rparr>"

definition unrelatedSet :: ReferenceSet where
  "unrelatedSet = \<lparr>Name = ''Blocked Hosts'', ElementType = ''ALN'', TimeoutType = ''FIRST_SEEN'',
     TimeToLive = ''1 days'', CreationTime = 1, NumberOfElements = 42\<rparr>"

definition sampleEnv :: "nat \<Rightarrow> env" where
  "sampleEnv n = \<lparr>
     loopVar = PerIteration,
     transport = (\<lambda>h r.
       if Method r = ''DELETE'' then Response 202 ''QUEUED''
       else if Method r = ''GET'' then Response 200 (if n \<le> length h then ''COMPLETED'' else ''PROCESSING'')
       else if Body r = None then Response 201 [] else Response 200 []),
     newRequestOK = (\<lambda>m u. True),
     QueryEscape = map (\<lambda>c. if c = CHR '' '' then CHR ''+'' else c),
     jsonMarshal = (\<lambda>servers. Some (Join servers '','')),
     decodeReferenceSets = (\<lambda>body. Some []),
     decodeReferenceSet = (\<lambda>body. Some (sampleSet body)),
     decodeDeletionTask = (\<lambda>body. Some (sampleTask body))\<rparr>"

definition sampleClient :: Client where
  "sampleClient = NewClient ''https://qradar'' ''token''"

definition eastName :: string where
  "eastName = ''Managed UNIX Devices - east''"

definition westName :: string where
  "westName = ''Managed UNIX Devices - west''"

section \<open>Facts about the extractor\<close>

lemma HasPrefix_iff_prefix: "HasPrefix s p \<longleftrightarrow> prefix p s"
  unfolding HasPrefix_def prefix_def
  by (metis append_eq_conv_conj append_take_drop_id le_add1 length_append)










text \<open>
  C6. A header row followed by the rows \<open>(_, "10.0.0.1", "east", "db")\<close> and
  \<open>(_, "10.0.0.2", "east", "db")\<close> yields exactly two groups, the coarse one
  \<open>"Managed UNIX Devices - east"\<close> and the fine one \<open>"Managed UNIX Devices - east - db"\<close>,
  each with the member list \<open>[10.0.0.1, 10.0.0.2]\<close>. The header and the first column of
  each row are arbitrary.
\<close>

theorem C6_end_to_end_extraction:
  "extractServerGroups
     (\<lambda>_. Records [header, [a, ''10.0.0.1'', ''east'', ''db''], [b, ''10.0.0.2'', ''east'', ''db'']])
     fileName
   = Returned [''Managed UNIX Devices - east'' \<mapsto> [''10.0.0.1'', ''10.0.0.2''],
               ''Managed UNIX Devices - east - db'' \<mapsto> [''10.0.0.1'', ''10.0.0.2'']]"
  by (simp add: extractServerGroups_def addLine_def index_def sliceFrom_def members_def
      unixRefSetPrefix_def fun_upd_twist)

text \<open>
  C9. A file all of whose records, the header included, have the same number \<open>n\<close> of
  fields, one or two (two in the witness), is accepted by the CSV reader, and if it has a
  data row, extraction does not return an error: it panics on \<open>line[2]\<close> of the first data
  row, index 2 out of range for length \<open>n\<close>. Nothing guards the access.
\<close>

theorem C9_short_rows_panic:
  assumes "list_all (\<lambda>l. length l = n) (header # row # rest)" and "0 < n" and "n < 3"
  shows "csvAccepted (header # row # rest)
       \<and> extractServerGroups (\<lambda>_. Records (header # row # rest)) fileName
           = Panicked (IndexOutOfRange 2 n)"
proof -
  from assms(1) have len: "length header = n" "length row = n" "list_all (\<lambda>l. length l = n) rest"
    by simp_all
  from len(1) assms(2) have "header \<noteq> []" by auto
  moreover from len have "list_all (\<lambda>r. length r = length header) (row # rest)" by simp
  ultimately have "csvAccepted (header # row # rest)"
    by (simp add: csvAccepted_def)
  moreover from len(2) assms(3) have "addLine Map.empty row = Panicked (IndexOutOfRange 2 n)"
    by (simp add: addLine_def index_def)
  then have "extractServerGroups (\<lambda>_. Records (header # row # rest)) fileName
      = Panicked (IndexOutOfRange 2 n)"
    by (simp add: extractServerGroups_def)
  ultimately show ?thesis by simp
qed

theorem C9_short_rows_panic_witness:
  "csvAccepted [[''host'', ''ip''], [''web1'', ''10.0.0.1'']]
   \<and> extractServerGroups (\<lambda>_. Records [[''host'', ''ip''], [''web1'', ''10.0.0.1'']]) ''servers.csv''
       = Panicked (IndexOutOfRange 2 2)"
  using C9_short_rows_panic [of 2 "[''host'', ''ip'']" "[''web1'', ''10.0.0.1'']" "[]" "''servers.csv''"]
  by simp

text \<open>
  C10. For a data row of exactly three fields the coarse and the fine group name are the
  same string (the join of the single grouping column is that column), so the loop body
  appends the row's identifier twice to that one group: extraction of a header and such a
  row returns a single group whose member list holds the identifier twice.
\<close>

theorem C10_three_field_row_duplicates:
  assumes "length line = 3"
  shows "coarseName line = fineName line
       \<and> addLine groups line
           = Returned (groups(coarseName line \<mapsto> members groups (coarseName line) @ [line ! 1, line ! 1]))
       \<and> extractServerGroups (\<lambda>_. Records [header, line]) fileName
           = Returned [coarseName line \<mapsto> [line ! 1, line ! 1]]"
proof -
  from assms obtain c0 c1 c2 where line: "line = [c0, c1, c2]"
    by (cases line; simp; cases "tl line"; simp; cases "tl (tl line)"; simp)
  have same: "coarseName line = fineName line"
    by (simp add: line coarseName_def fineName_def)
  have body: "addLine g line = Returned (g(coarseName line \<mapsto> members g (coarseName line) @ [line ! 1, line ! 1]))"
    for g
    by (simp add: line coarseName_def addLine_def index_def sliceFrom_def members_def Let_def)
  have "extractServerGroups (\<lambda>_. Records [header, line]) fileName
      = Returned [coarseName line \<mapsto> [line ! 1, line ! 1]]"
    by (simp add: extractServerGroups_def body members_def)
  with same body show ?thesis by simp
qed

theorem C10_three_field_row_duplicates_witness:
  "coarseName [''web1'', ''10.0.0.1'', ''east''] = fineName [''web1'', ''10.0.0.1'', ''east'']
   \<and> extractServerGroups (\<lambda>_. Records [[''host'', ''ip'', ''site''], [''web1'', ''10.0.0.1'', ''east'']]) ''servers.csv''
       = Returned [''Managed UNIX Devices - east'' \<mapsto> [''10.0.0.1'', ''10.0.0.1'']]"
  using C10_three_field_row_duplicates
    [of "[''web1'', ''10.0.0.1'', ''east'']" Map.empty "[''host'', ''ip'', ''site'']" "''servers.csv''"]
  by (simp add: coarseName_def unixRefSetPrefix_def)

section \<open>Facts about the client\<close>

text \<open>What each call of the client adds to the wire.\<close>

lemma DeleteReferenceSet_wire:
  assumes "DeleteReferenceSet w c name p h = (res, h')"
  shows "(\<not> newRequestOK w ''DELETE'' (deleteURL w c name p) \<and> res = Panicked NilDereference \<and> h' = h)
       \<or> (newRequestOK w ''DELETE'' (deleteURL w c name p) \<and> (\<exists>r. h' = h @ [r] \<and> isDelete w c name p r))"
  using assms
  by (auto simp: DeleteReferenceSet_def deleteURL_def NewRequest_def HeaderAdd_def Do_def isDelete_def Let_def
      split: if_splits http_reply.splits option.splits)

lemma TaskStatus_wire:
  assumes "DeleteReferenceSetTaskStatus w c i h = (res, h')"
  shows "h' = h \<or> (\<exists>r. h' = h @ [r] \<and> isStatusLookup c r)"
  using assms
  by (auto simp: DeleteReferenceSetTaskStatus_def NewRequest_def HeaderAdd_def Do_def isStatusLookup_def Let_def
      split: if_splits http_reply.splits option.splits)

lemma TaskStatus_Returned_wire:
  assumes "DeleteReferenceSetTaskStatus w c i h = (Returned t, h')"
  shows "length h' = Suc (length h)"
  using assms
  by (auto simp: DeleteReferenceSetTaskStatus_def NewRequest_def Do_def Let_def
      split: if_splits http_reply.splits option.splits)

lemma Create_wire:
  assumes "CreateReferenceSet w c name h = (res, h')"
  shows "h' = h \<or> (\<exists>r. h' = h @ [r] \<and> Method r = ''POST'' \<and> URL r = BaseURL c @ ''/api/reference_data/sets?name='' @ QueryEscape w name @ ''&element_type=IP'')"
  using assms
  by (auto simp: CreateReferenceSet_def NewRequest_def HeaderAdd_def Do_def Let_def
      split: if_splits http_reply.splits option.splits)

lemma BulkLoad_wire:
  assumes "BulkLoadReferenceSet w c name servers h = (res, h')"
  shows "h' = h \<or> (\<exists>r. h' = h @ [r] \<and> isBulkLoad c r)"
  using assms
  by (auto simp: BulkLoadReferenceSet_def NewRequest_def HeaderAdd_def Do_def isBulkLoad_def Let_def
      split: if_splits http_reply.splits option.splits)

lemma sentBy_append [simp]: "sentBy h (h @ new) = new"
  by (simp add: sentBy_def)

lemma sentBy_self [simp]: "sentBy h h = []"
  by (simp add: sentBy_def)

lemma isDelete_not_bulk: "isDelete w c n p r \<Longrightarrow> \<not> isBulkLoad c r"
  by (simp add: isDelete_def isBulkLoad_def)

lemma isStatusLookup_not_bulk: "isStatusLookup c r \<Longrightarrow> \<not> isBulkLoad c r"
  by (simp add: isStatusLookup_def isBulkLoad_def)

lemma create_not_bulk:
  "URL r = BaseURL c @ ''/api/reference_data/sets?name='' @ rest \<Longrightarrow> \<not> isBulkLoad c r"
  by (simp add: isBulkLoad_def)

lemma isDelete_full: "isDelete w c n False r \<Longrightarrow> isFullDelete r"
  by (simp add: isDelete_def isFullDelete_def deleteURL_def fmtBool_def suffix_def)

lemma isDelete_purge_not_full: "isDelete w c n True r \<Longrightarrow> \<not> isFullDelete r"
  by (simp add: isDelete_def isFullDelete_def deleteURL_def fmtBool_def suffix_to_prefix)

lemma isStatusLookup_not_full: "isStatusLookup c r \<Longrightarrow> \<not> isFullDelete r"
  by (simp add: isStatusLookup_def isFullDelete_def)

lemma isBulkLoad_not_full: "isBulkLoad c r \<Longrightarrow> \<not> isFullDelete r"
  by (simp add: isBulkLoad_def isFullDelete_def)

lemma Create_wire_not_bulk:
  assumes "CreateReferenceSet w c name h = (res, h')"
  shows "\<exists>new. h' = h @ new \<and> (\<forall>r\<in>set new. \<not> isBulkLoad c r)"
  using Create_wire[OF assms] create_not_bulk by fastforce

lemma Delete_wire_not_bulk:
  assumes "DeleteReferenceSet w c name p h = (res, h')"
  shows "\<exists>new. h' = h @ new \<and> (\<forall>r\<in>set new. \<not> isBulkLoad c r)"
  using DeleteReferenceSet_wire[OF assms] isDelete_not_bulk by fastforce

lemma BulkLoad_wire_ex:
  assumes "BulkLoadReferenceSet w c name servers h = (res, h')"
  shows "\<exists>new. h' = h @ new"
  using BulkLoad_wire[OF assms] by auto

lemma Create_wire_not_full:
  assumes "CreateReferenceSet w c name h = (res, h')"
  shows "\<exists>new. h' = h @ new \<and> (\<forall>r\<in>set new. \<not> isFullDelete r)"
  using Create_wire[OF assms] by (fastforce simp: isFullDelete_def)

section \<open>Facts about polling\<close>

lemma pollLoop_wire:
  "pollLoop w c retry task h = (res, h') \<Longrightarrow>
     \<exists>polls. h' = h @ polls \<and> length polls \<le> nat retry \<and> (\<forall>r\<in>set polls. isStatusLookup c r)"
proof (induction w c retry task h rule: pollLoop.induct)
  case (1 w c retry task h)
  show ?case
  proof (cases "Status task \<noteq> ''COMPLETED'' \<and> retry > 0")
    case False
    with "1.prems" show ?thesis by (simp add: pollLoop.simps)
  next
    case True
    obtain r1 h1 where st: "DeleteReferenceSetTaskStatus w c (ID task) h = (r1, h1)"
      by (cases "DeleteReferenceSetTaskStatus w c (ID task) h")
    from TaskStatus_wire[OF st] obtain p1 where p1: "h1 = h @ p1" "length p1 \<le> 1" "\<forall>r\<in>set p1. isStatusLookup c r"
      by (metis append_Nil2 empty_iff empty_set length_Cons list.size(3) le_refl set_ConsD zero_less_one_class.zero_le_one One_nat_def)
    show ?thesis
    proof (cases r1)
      case (Returned t)
      with True st "1.prems" have "pollLoop w c (retry - 1) t h1 = (res, h')"
        by (simp add: pollLoop.simps[of w c retry])
      from "1.IH"[OF True st[symmetric] Returned this]
      obtain p2 where "h' = h1 @ p2" "length p2 \<le> nat (retry - 1)" "\<forall>r\<in>set p2. isStatusLookup c r" by blast
      with p1 True show ?thesis
        by (intro exI[of _ "p1 @ p2"]) auto
    next
      case (Failed e)
      with True st "1.prems" have "h' = h1" by (simp add: pollLoop.simps[of w c retry])
      with p1 True show ?thesis by (intro exI[of _ p1]) auto
    next
      case (Panicked e)
      with True st "1.prems" have "h' = h1" by (simp add: pollLoop.simps[of w c retry])
      with p1 True show ?thesis by (intro exI[of _ p1]) auto
    qed
  qed
qed

lemma pollLoop_wire_not_bulk:
  assumes "pollLoop w c retry task h = (res, h')"
  shows "\<exists>new. h' = h @ new \<and> (\<forall>r\<in>set new. \<not> isBulkLoad c r)"
  using pollLoop_wire[OF assms] isStatusLookup_not_bulk by blast

lemma pollLoop_completed:
  "Status task = ''COMPLETED'' \<Longrightarrow> pollLoop w c retry task h = (Returned task, h)"
  by (simp add: pollLoop.simps)

lemma pollLoop_out_of_budget:
  "retry \<le> 0 \<Longrightarrow> pollLoop w c retry task h = (Returned task, h)"
  by (simp add: pollLoop.simps)

lemma pollLoop_step:
  "\<lbrakk>Status task \<noteq> ''COMPLETED''; 0 < retry;
    DeleteReferenceSetTaskStatus w c (ID task) h = (Returned task', h')\<rbrakk>
   \<Longrightarrow> pollLoop w c retry task h = pollLoop w c (retry - 1) task' h'"
  by (simp add: pollLoop.simps[of w c retry])

lemma pollLoop_exhausted:
  "pollLoop w c retry task h = (Returned t, h') \<Longrightarrow> Status t \<noteq> ''COMPLETED''
     \<Longrightarrow> length h' = length h + nat retry"
proof (induction w c retry task h rule: pollLoop.induct)
  case (1 w c retry task h)
  show ?case
  proof (cases "Status task \<noteq> ''COMPLETED'' \<and> retry > 0")
    case False
    with "1.prems" have "t = task" "h' = h" by (simp_all add: pollLoop.simps)
    with False "1.prems"(2) show ?thesis by simp
  next
    case True
    obtain r1 h1 where st: "DeleteReferenceSetTaskStatus w c (ID task) h = (r1, h1)"
      by (cases "DeleteReferenceSetTaskStatus w c (ID task) h")
    show ?thesis
    proof (cases r1)
      case (Returned t1)
      with True st "1.prems" have "pollLoop w c (retry - 1) t1 h1 = (Returned t, h')"
        by (simp add: pollLoop.simps[of w c retry])
      from "1.IH"[OF True st[symmetric] Returned this "1.prems"(2)]
      have "length h' = length h1 + nat (retry - 1)" .
      moreover from st Returned have "length h1 = Suc (length h)"
        by (simp add: TaskStatus_Returned_wire)
      moreover from True have "nat retry = Suc (nat (retry - 1))" by arith
      ultimately show ?thesis by simp
    next
      case (Failed e)
      with True st "1.prems" show ?thesis by (simp add: pollLoop.simps[of w c retry])
    next
      case (Panicked e)
      with True st "1.prems" show ?thesis by (simp add: pollLoop.simps[of w c retry])
    qed
  qed
qed

section \<open>Facts about the units of work\<close>

lemma bulkLoadStep_wire: "\<exists>new. snd (bulkLoadStep w q name servers h) = h @ new"
  using BulkLoad_wire_ex[of w q name servers h]
  by (cases "BulkLoadReferenceSet w q name servers h") (auto simp: bulkLoadStep_def split: go_result.splits)

lemma bulkLoadStep_end:
  "fst (bulkLoadStep w q name servers h)
     \<in> {Finished} \<union> range (\<lambda>e. LogFatal (ErrorBulkloading e)) \<union> {Crashed NilDereference}"
  apply (cases "BulkLoadReferenceSet w q name servers h") 
  apply (auto simp: bulkLoadStep_def split: go_result.splits)
  apply (auto simp: BulkLoadReferenceSet_def NewRequest_def HeaderAdd_def Do_def isBulkLoad_def Let_def
      split: if_splits http_reply.splits option.splits)
  done

lemma bulkLoadStep_crash_wire:
  "fst (bulkLoadStep w q name servers h) = Crashed p \<Longrightarrow> snd (bulkLoadStep w q name servers h) = h"
  apply (cases "BulkLoadReferenceSet w q name servers h") 
  apply (auto simp: bulkLoadStep_def split: go_result.splits)
  apply (auto simp: BulkLoadReferenceSet_def NewRequest_def HeaderAdd_def Do_def isBulkLoad_def Let_def
      split: if_splits http_reply.splits option.splits)
  done

lemma syncGroup_new:
  "unixRefSets name = None \<Longrightarrow>
   syncGroup w q unixRefSets name servers h =
     (case CreateReferenceSet w q name h of
           (Panicked pn, h1) \<Rightarrow> (Crashed pn, h1)
         | (Failed err, h1) \<Rightarrow> (LogFatal (ErrorCreating err), h1)
         | (Returned rs, h1) \<Rightarrow> bulkLoadStep w q name servers h1)"
  by (simp add: syncGroup_def)

lemma syncGroup_existing:
  "unixRefSets name \<noteq> None \<Longrightarrow>
   syncGroup w q unixRefSets name servers h =
        (case DeleteReferenceSet w q name True h of
           (Panicked pn, h1) \<Rightarrow> (Crashed pn, h1)
         | (Failed err, h1) \<Rightarrow> (LogFatal (ErrorPurging err), h1)
         | (Returned task, h1) \<Rightarrow>
             (case pollLoop w q 5 task h1 of
                (Panicked pn, h2) \<Rightarrow> (Crashed pn, h2)
              | (Failed err, h2) \<Rightarrow> (LogFatal (ErrorPollingPurge err), h2)
              | (Returned task', h2) \<Rightarrow>
                  if Status task' \<noteq> ''COMPLETED'' then (LogFatal (TimeoutPurging (Status task')), h2)
                  else bulkLoadStep w q name servers h2))"
  by (simp add: syncGroup_def)

text \<open>
  The shape of a run of \<open>syncGroup\<close>: either the step before the bulk load succeeded,
  leaving the wire \<open>h2\<close> without a bulk load on it, and the rest of the run is the bulk-load
  step from \<open>h2\<close>; or the run ended before the bulk-load step and sent no bulk load.
\<close>

lemma syncGroup_structure:
  "(\<exists>h2. prefix h h2 \<and> (\<forall>r\<in>set (sentBy h h2). \<not> isBulkLoad q r)
        \<and> syncGroup w q urs name servers h = bulkLoadStep w q name servers h2
        \<and> (if urs name = None then (\<exists>rs. CreateReferenceSet w q name h = (Returned rs, h2))
            else (\<exists>task h1 task'. DeleteReferenceSet w q name True h = (Returned task, h1)
                    \<and> pollLoop w q 5 task h1 = (Returned task', h2) \<and> Status task' = ''COMPLETED'')))
   \<or> (prefix h (snd (syncGroup w q urs name servers h))
       \<and> (\<forall>r\<in>set (sentBy h (snd (syncGroup w q urs name servers h))). \<not> isBulkLoad q r)
       \<and> fst (syncGroup w q urs name servers h) \<notin> {Finished} \<union> range (\<lambda>e. LogFatal (ErrorBulkloading e)))"
proof (cases "urs name = None")
  case True
  obtain r1 h1 where c: "CreateReferenceSet w q name h = (r1, h1)"
    by (cases "CreateReferenceSet w q name h")
  from Create_wire_not_bulk[OF c] obtain new where n: "h1 = h @ new" "\<forall>r\<in>set new. \<not> isBulkLoad q r" by blast
  show ?thesis
  proof (cases r1)
    case (Returned rs)
    with True c n show ?thesis
      by (intro disjI1 exI[of _ h1]) (auto simp: syncGroup_new)
  qed (use True c n in \<open>auto simp: syncGroup_new\<close>)
next
  case False
  obtain r1 h1 where d: "DeleteReferenceSet w q name True h = (r1, h1)"
    by (cases "DeleteReferenceSet w q name True h")
  from Delete_wire_not_bulk[OF d] obtain new where n: "h1 = h @ new" "\<forall>r\<in>set new. \<not> isBulkLoad q r" by blast
  show ?thesis
  proof (cases r1)
    case (Returned task)
    obtain r2 h2 where p: "pollLoop w q 5 task h1 = (r2, h2)"
      by (cases "pollLoop w q 5 task h1")
    from pollLoop_wire_not_bulk[OF p] obtain new2 where n2: "h2 = h1 @ new2" "\<forall>r\<in>set new2. \<not> isBulkLoad q r" by blast
    show ?thesis
    proof (cases r2)
      case R2: (Returned task')
      show ?thesis
      proof (cases "Status task' = ''COMPLETED''")
        case True
        with False d n Returned p n2 R2 show ?thesis
          by (intro disjI1 exI[of _ h2]) (auto simp: syncGroup_existing)
      next
        case F: False
        with False d n Returned p n2 R2 show ?thesis
          by (intro disjI2) (auto simp: syncGroup_existing)
      qed
    qed (use False d n Returned p n2 in \<open>auto simp: syncGroup_existing\<close>)
  qed (use False d n in \<open>auto simp: syncGroup_existing\<close>)
qed

lemma deleteOrphan_wire:
  "(\<not> newRequestOK w ''DELETE'' (deleteURL w q name False) \<and> deleteOrphan w q name h = (Crashed NilDereference, h))
   \<or> (newRequestOK w ''DELETE'' (deleteURL w q name False) \<and>
       (\<exists>d polls. snd (deleteOrphan w q name h) = h @ d # polls \<and> isDelete w q name False d
           \<and> length polls \<le> 5 \<and> (\<forall>r\<in>set polls. isStatusLookup q r)))"
proof -
  obtain r1 h1 where d: "DeleteReferenceSet w q name False h = (r1, h1)"
    by (cases "DeleteReferenceSet w q name False h")
  from DeleteReferenceSet_wire[OF d]
  consider (crash) "\<not> newRequestOK w ''DELETE'' (deleteURL w q name False)" "r1 = Panicked NilDereference" "h1 = h"
    | (sent) r where "newRequestOK w ''DELETE'' (deleteURL w q name False)" "h1 = h @ [r]" "isDelete w q name False r"
    by blast
  then show ?thesis
  proof cases
    case crash
    with d show ?thesis by (simp add: deleteOrphan_def)
  next
    case sent
    show ?thesis
    proof (cases r1)
      case (Returned task)
      obtain r2 h2 where p: "pollLoop w q 5 task h1 = (r2, h2)"
        by (cases "pollLoop w q 5 task h1")
      from pollLoop_wire[OF p] obtain polls where
        polls: "h2 = h1 @ polls" "length polls \<le> 5" "\<forall>r\<in>set polls. isStatusLookup q r"
        by auto
      from d Returned p have "snd (deleteOrphan w q name h) = h2"
        by (cases r2) (simp_all add: deleteOrphan_def)
      with sent polls show ?thesis by auto
    qed (use d sent in \<open>auto simp: deleteOrphan_def\<close>)
  qed
qed

lemma syncGroup_no_full_delete:
  "\<forall>r\<in>set (sentBy h (snd (syncGroup w q urs name servers h))). \<not> isFullDelete r"
proof (cases "urs name = None")
  case True
  obtain r1 h1 where c: "CreateReferenceSet w q name h = (r1, h1)"
    by (cases "CreateReferenceSet w q name h")
  from Create_wire_not_full[OF c] obtain new where n: "h1 = h @ new" "\<forall>r\<in>set new. \<not> isFullDelete r"
    by blast
  show ?thesis
  proof (cases r1)
    case (Returned rs)
    obtain e3 h3 where b: "bulkLoadStep w q name servers h1 = (e3, h3)"
      by (cases "bulkLoadStep w q name servers h1")
    obtain r3 where b': "BulkLoadReferenceSet w q name servers h1 = (r3, h3)"
      using b by (cases "BulkLoadReferenceSet w q name servers h1") (auto simp: bulkLoadStep_def split: go_result.splits)
    from BulkLoad_wire[OF b'] isBulkLoad_not_full
    obtain new3 where "h3 = h1 @ new3" "\<forall>r\<in>set new3. \<not> isFullDelete r" by fastforce
    with True c n Returned b show ?thesis by (auto simp: syncGroup_new)
  qed (use True c n in \<open>auto simp: syncGroup_new\<close>)
next
  case False
  obtain r1 h1 where d: "DeleteReferenceSet w q name True h = (r1, h1)"
    by (cases "DeleteReferenceSet w q name True h")
  from DeleteReferenceSet_wire[OF d] isDelete_purge_not_full
  obtain new where n: "h1 = h @ new" "\<forall>r\<in>set new. \<not> isFullDelete r" by fastforce
  show ?thesis
  proof (cases r1)
    case (Returned task)
    obtain r2 h2 where p: "pollLoop w q 5 task h1 = (r2, h2)"
      by (cases "pollLoop w q 5 task h1")
    from pollLoop_wire[OF p] isStatusLookup_not_full
    obtain new2 where n2: "h2 = h1 @ new2" "\<forall>r\<in>set new2. \<not> isFullDelete r" by blast
    show ?thesis
    proof (cases r2)
      case R2: (Returned task')
      obtain e3 h3 where b: "bulkLoadStep w q name servers h2 = (e3, h3)"
        by (cases "bulkLoadStep w q name servers h2")
      obtain r3 where b': "BulkLoadReferenceSet w q name servers h2 = (r3, h3)"
        using b by (cases "BulkLoadReferenceSet w q name servers h2") (auto simp: bulkLoadStep_def split: go_result.splits)
      from BulkLoad_wire[OF b'] isBulkLoad_not_full
      obtain new3 where "h3 = h2 @ new3" "\<forall>r\<in>set new3. \<not> isFullDelete r" by fastforce
      with False d n Returned p n2 R2 b show ?thesis by (auto simp: syncGroup_existing)
    qed (use False d n Returned p n2 in \<open>auto simp: syncGroup_existing\<close>)
  qed (use False d n in \<open>auto simp: syncGroup_existing\<close>)
qed

lemma syncGroup_first_request:
  assumes "urs name \<noteq> None" "newRequestOK w ''DELETE'' (deleteURL w q name True)"
  shows "\<exists>d rest. snd (syncGroup w q urs name servers h) = h @ d # rest \<and> isDelete w q name True d"
proof -
  obtain r1 h1 where d: "DeleteReferenceSet w q name True h = (r1, h1)"
    by (cases "DeleteReferenceSet w q name True h")
  from DeleteReferenceSet_wire[OF d] assms(2)
  obtain r where r: "h1 = h @ [r]" "isDelete w q name True r" by blast
  show ?thesis
  proof (cases r1)
    case (Returned task)
    obtain r2 h2 where p: "pollLoop w q 5 task h1 = (r2, h2)"
      by (cases "pollLoop w q 5 task h1")
    from pollLoop_wire[OF p] obtain new2 where n2: "h2 = h1 @ new2" by blast
    show ?thesis
    proof (cases r2)
      case R2: (Returned task')
      from bulkLoadStep_wire[of w q name servers h2] obtain new3 where
        "snd (bulkLoadStep w q name servers h2) = h2 @ new3" by blast
      with assms(1) d r Returned p n2 R2 show ?thesis by (auto simp: syncGroup_existing)
    qed (use assms(1) d r Returned p n2 in \<open>auto simp: syncGroup_existing\<close>)
  qed (use assms(1) d r in \<open>auto simp: syncGroup_existing\<close>)
qed

lemma runUnit_simps [simp]:
  "runUnit w q urs (SyncGroup name servers) h = syncGroup w q urs name servers h"
  "runUnit w q urs (DeleteOrphan name) h = deleteOrphan w q name h"
  by (simp_all add: runUnit_def)

lemma deleteOrphan_after_delete:
  assumes "DeleteReferenceSet w q name False h = (Returned task, h1)"
  shows "snd (deleteOrphan w q name h) = snd (pollLoop w q 5 task h1)
       \<and> (fst (deleteOrphan w q name h) = Finished
            \<longleftrightarrow> (\<exists>t. fst (pollLoop w q 5 task h1) = Returned t \<and> Status t = ''COMPLETED''))"
proof -
  obtain r2 h2 where p: "pollLoop w q 5 task h1 = (r2, h2)"
    by (cases "pollLoop w q 5 task h1")
  with assms show ?thesis
    by (cases r2) (auto simp: deleteOrphan_def)
qed

lemma isStatusLookupFor_lookup: "isStatusLookupFor c i r \<Longrightarrow> isStatusLookup c r"
  by (simp add: isStatusLookupFor_def isStatusLookup_def statusURL_def)

lemma TaskStatus_request:
  assumes "newRequestOK w ''GET'' (statusURL c i)"
  shows "\<exists>res r. DeleteReferenceSetTaskStatus w c i h = (res, h @ [r]) \<and> isStatusLookupFor c i r"
  using assms
  by (auto simp: DeleteReferenceSetTaskStatus_def NewRequest_def HeaderAdd_def Do_def
      isStatusLookupFor_def statusURL_def Let_def split: if_splits http_reply.splits option.splits)

lemma pollLoop_first_lookup:
  assumes "Status task \<noteq> ''COMPLETED''" and "0 < retry"
      and "newRequestOK w ''GET'' (statusURL c (ID task))"
  shows "\<exists>l rest. snd (pollLoop w c retry task h) = h @ l # rest
           \<and> isStatusLookupFor c (ID task) l
           \<and> length rest \<le> nat (retry - 1) \<and> (\<forall>r\<in>set rest. isStatusLookup c r)"
proof -
  from TaskStatus_request[OF assms(3), of h]
  obtain res l where st: "DeleteReferenceSetTaskStatus w c (ID task) h = (res, h @ [l])"
    and l: "isStatusLookupFor c (ID task) l"
    by blast
  show ?thesis
  proof (cases res)
    case (Returned t)
    obtain r2 h2 where p: "pollLoop w c (retry - 1) t (h @ [l]) = (r2, h2)"
      by (cases "pollLoop w c (retry - 1) t (h @ [l])")
    from pollLoop_wire[OF p] obtain rest where
      rest: "h2 = (h @ [l]) @ rest" "length rest \<le> nat (retry - 1)" "\<forall>r\<in>set rest. isStatusLookup c r"
      by blast
    from assms(1,2) st Returned p have "snd (pollLoop w c retry task h) = h2"
      by (simp add: pollLoop.simps[of w c retry])
    with rest l show ?thesis by auto
  next
    case (Failed e)
    with assms(1,2) st have "snd (pollLoop w c retry task h) = h @ [l]"
      by (simp add: pollLoop.simps[of w c retry])
    with l show ?thesis by auto
  next
    case (Panicked e)
    with assms(1,2) st have "snd (pollLoop w c retry task h) = h @ [l]"
      by (simp add: pollLoop.simps[of w c retry])
    with l show ?thesis by auto
  qed
qed

lemma DeleteReferenceSet_Returned_wire:
  assumes "DeleteReferenceSet w c name p h = (Returned task, h1)"
  shows "\<exists>d. h1 = h @ [d] \<and> isDelete w c name p d"
  using DeleteReferenceSet_wire[OF assms] by auto

text \<open>
  C2. The polling loop is a total function: it ends for every task and every remote
  store. From a budget of 5 it adds at most 5 requests to the wire, all of them status
  lookups. It sends none when the task is already \<open>COMPLETED\<close>, and at any point of the
  loop a lookup that returns a task with status \<open>COMPLETED\<close> is the last one. When the loop
  ends with a status other than \<open>COMPLETED\<close> it has sent exactly 5 lookups, and the unit that
  polled (the deletion of an orphan, or the purge of an existing group) ends in
  \<open>log.Fatalf\<close> with its timeout message.
\<close>

theorem C2_polling_bounded_then_timeout:
  "(\<exists>polls. snd (pollLoop w q 5 task h1) = h1 @ polls \<and> length polls \<le> 5
            \<and> (\<forall>r\<in>set polls. isStatusLookup q r))
   \<and> (Status task = ''COMPLETED'' \<longrightarrow> pollLoop w q 5 task h1 = (Returned task, h1))
   \<and> (\<forall>retry t h task' h'.
         0 < retry \<and> Status t \<noteq> ''COMPLETED''
         \<and> DeleteReferenceSetTaskStatus w q (ID t) h = (Returned task', h')
         \<and> Status task' = ''COMPLETED''
         \<longrightarrow> pollLoop w q retry t h = (Returned task', h'))
   \<and> (\<forall>task' h2.
         pollLoop w q 5 task h1 = (Returned task', h2) \<and> Status task' \<noteq> ''COMPLETED''
         \<longrightarrow> length (sentBy h1 h2) = 5
           \<and> (\<forall>name h. DeleteReferenceSet w q name False h = (Returned task, h1)
                 \<longrightarrow> deleteOrphan w q name h = (LogFatal (TimeoutDeleting (Status task')), h2))
           \<and> (\<forall>name servers urs h.
                 urs name \<noteq> None \<and> DeleteReferenceSet w q name True h = (Returned task, h1)
                 \<longrightarrow> syncGroup w q urs name servers h = (LogFatal (TimeoutPurging (Status task')), h2)))"
proof -
  obtain r h2 where p: "pollLoop w q 5 task h1 = (r, h2)"
    by (cases "pollLoop w q 5 task h1")
  from pollLoop_wire[OF p] p
  have bound: "\<exists>polls. snd (pollLoop w q 5 task h1) = h1 @ polls \<and> length polls \<le> 5
            \<and> (\<forall>r\<in>set polls. isStatusLookup q r)"
    by auto
  have early: "pollLoop w q retry t h = (Returned task', h')"
    if "0 < retry" "Status t \<noteq> ''COMPLETED''"
       "DeleteReferenceSetTaskStatus w q (ID t) h = (Returned task', h')"
       "Status task' = ''COMPLETED''" for retry t h task' h'
    using that by (simp add: pollLoop_step pollLoop_completed)
  have timeout: "length (sentBy h1 h2) = 5
           \<and> (\<forall>name h. DeleteReferenceSet w q name False h = (Returned task, h1)
                 \<longrightarrow> deleteOrphan w q name h = (LogFatal (TimeoutDeleting (Status task')), h2))
           \<and> (\<forall>name servers urs h.
                 urs name \<noteq> None \<and> DeleteReferenceSet w q name True h = (Returned task, h1)
                 \<longrightarrow> syncGroup w q urs name servers h = (LogFatal (TimeoutPurging (Status task')), h2))"
    if run: "pollLoop w q 5 task h1 = (Returned task', h2)" and st: "Status task' \<noteq> ''COMPLETED''"
    for task' h2
  proof -
    from pollLoop_exhausted[OF run st] have "length h2 = length h1 + 5" by simp
    then have "length (sentBy h1 h2) = 5" by (simp add: sentBy_def)
    moreover have "deleteOrphan w q name h = (LogFatal (TimeoutDeleting (Status task')), h2)"
      if "DeleteReferenceSet w q name False h = (Returned task, h1)" for name h
      using that run st by (simp add: deleteOrphan_def)
    moreover have "syncGroup w q urs name servers h = (LogFatal (TimeoutPurging (Status task')), h2)"
      if "urs name \<noteq> None" "DeleteReferenceSet w q name True h = (Returned task, h1)"
      for name servers and urs :: "string \<rightharpoonup> addr" and h
      using that run st by (simp add: syncGroup_existing)
    ultimately show ?thesis by blast
  qed
  from bound pollLoop_completed[of task w q 5 h1] early timeout show ?thesis
    by blast
qed

lemma sample_poll_times_out:
  "fst (DeleteReferenceSet (sampleEnv 100) sampleClient westName False []) = Returned (sampleTask ''QUEUED'')"
  "fst (pollLoop (sampleEnv 100) sampleClient 5 (sampleTask ''QUEUED'')
          (snd (DeleteReferenceSet (sampleEnv 100) sampleClient westName False [])))
     = Returned (sampleTask ''PROCESSING'')"
  by code_simp+

theorem C2_polling_bounded_then_timeout_witness:
  "fst (pollLoop (sampleEnv 100) sampleClient 5 (sampleTask ''QUEUED'')
          (snd (DeleteReferenceSet (sampleEnv 100) sampleClient westName False [])))
     = Returned (sampleTask ''PROCESSING'')
   \<and> Status (sampleTask ''PROCESSING'') \<noteq> ''COMPLETED''
   \<and> length (sentBy (snd (DeleteReferenceSet (sampleEnv 100) sampleClient westName False []))
        (snd (pollLoop (sampleEnv 100) sampleClient 5 (sampleTask ''QUEUED'')
          (snd (DeleteReferenceSet (sampleEnv 100) sampleClient westName False []))))) = 5
   \<and> fst (deleteOrphan (sampleEnv 100) sampleClient westName []) = LogFatal (TimeoutDeleting ''PROCESSING'')"
proof -
  let ?w = "sampleEnv 100" and ?q = sampleClient
  let ?h1 = "snd (DeleteReferenceSet ?w ?q westName False [])"
  let ?h2 = "snd (pollLoop ?w ?q 5 (sampleTask ''QUEUED'') ?h1)"
  have d: "DeleteReferenceSet ?w ?q westName False [] = (Returned (sampleTask ''QUEUED''), ?h1)"
    using sample_poll_times_out(1) by (metis prod.collapse)
  have p: "pollLoop ?w ?q 5 (sampleTask ''QUEUED'') ?h1 = (Returned (sampleTask ''PROCESSING''), ?h2)"
    using sample_poll_times_out(2) by (metis prod.collapse)
  have s: "Status (sampleTask ''PROCESSING'') \<noteq> ''COMPLETED''"
    by (simp add: sampleTask_def)
  from C2_polling_bounded_then_timeout [of ?w ?q "sampleTask ''QUEUED''" ?h1] d p s
  have len: "length (sentBy ?h1 ?h2) = 5"
    and del: "deleteOrphan ?w ?q westName [] = (LogFatal (TimeoutDeleting (Status (sampleTask ''PROCESSING''))), ?h2)"
    by blast+
  have "Status (sampleTask ''PROCESSING'') = ''PROCESSING''"
    by (simp add: sampleTask_def)
  with del have "fst (deleteOrphan ?w ?q westName []) = LogFatal (TimeoutDeleting ''PROCESSING'')"
    by simp
  with sample_poll_times_out(2) s len show ?thesis by blast
qed

text \<open>
  C3. In the unit of a desired group, a bulk-load request is on the wire only after the
  step before it has succeeded: for a new group \<open>CreateReferenceSet\<close> returned without an
  error, for an existing group the purge returned a task and the polling loop ended with a
  task of status \<open>COMPLETED\<close>; that step left the wire \<open>h2\<close>, and nothing the unit sent up
  to \<open>h2\<close> is a bulk load. A unit that ends with an error of the purge, of polling, with a
  polling timeout, with an error of the creation, or with a panic has sent no bulk load.
\<close>

theorem C3_bulk_load_only_after_preparation:
  "(\<forall>r\<in>set (sentBy h (snd (syncGroup w q urs name servers h))). isBulkLoad q r \<longrightarrow>
      (\<exists>h2. prefix h h2 \<and> prefix h2 (snd (syncGroup w q urs name servers h))
           \<and> (\<forall>r'\<in>set (sentBy h h2). \<not> isBulkLoad q r')
           \<and> (if urs name = None then (\<exists>rs. CreateReferenceSet w q name h = (Returned rs, h2))
               else (\<exists>task h1 task'. DeleteReferenceSet w q name True h = (Returned task, h1)
                      \<and> pollLoop w q 5 task h1 = (Returned task', h2) \<and> Status task' = ''COMPLETED''))))
   \<and> (\<forall>e s p. fst (syncGroup w q urs name servers h)
                 \<in> {LogFatal (ErrorPurging e), LogFatal (ErrorPollingPurge e), LogFatal (TimeoutPurging s),
                     LogFatal (ErrorCreating e), Crashed p}
         \<longrightarrow> (\<forall>r\<in>set (sentBy h (snd (syncGroup w q urs name servers h))). \<not> isBulkLoad q r))"
proof -
  let ?res = "syncGroup w q urs name servers h"
  from syncGroup_structure[of h q w urs name servers]
  consider (prepared) h2 where "prefix h h2" "\<forall>r\<in>set (sentBy h h2). \<not> isBulkLoad q r"
      "?res = bulkLoadStep w q name servers h2"
      "if urs name = None then (\<exists>rs. CreateReferenceSet w q name h = (Returned rs, h2))
            else (\<exists>task h1 task'. DeleteReferenceSet w q name True h = (Returned task, h1)
                    \<and> pollLoop w q 5 task h1 = (Returned task', h2) \<and> Status task' = ''COMPLETED'')"
    | (failed) "\<forall>r\<in>set (sentBy h (snd ?res)). \<not> isBulkLoad q r"
    by blast
  then show ?thesis
  proof cases
    case prepared
    from bulkLoadStep_wire[of w q name servers h2] prepared(3)
    have pre: "prefix h2 (snd ?res)" by auto
    have first: "\<forall>r\<in>set (sentBy h (snd ?res)). isBulkLoad q r \<longrightarrow>
      (\<exists>h2. prefix h h2 \<and> prefix h2 (snd ?res)
           \<and> (\<forall>r'\<in>set (sentBy h h2). \<not> isBulkLoad q r')
           \<and> (if urs name = None then (\<exists>rs. CreateReferenceSet w q name h = (Returned rs, h2))
               else (\<exists>task h1 task'. DeleteReferenceSet w q name True h = (Returned task, h1)
                      \<and> pollLoop w q 5 task h1 = (Returned task', h2) \<and> Status task' = ''COMPLETED'')))"
      using prepared(1,2,4) pre by blast
    have second: "\<forall>r\<in>set (sentBy h (snd ?res)). \<not> isBulkLoad q r"
      if "fst ?res \<in> {LogFatal (ErrorPurging e), LogFatal (ErrorPollingPurge e), LogFatal (TimeoutPurging s),
                     LogFatal (ErrorCreating e), Crashed p}" for e s p
    proof -
      from bulkLoadStep_end[of w q name servers h2] that prepared(3)
      have "fst (bulkLoadStep w q name servers h2) = Crashed p" by auto
      from bulkLoadStep_crash_wire[OF this] prepared(3) have "snd ?res = h2" by simp
      with prepared(2) show ?thesis by simp
    qed
    from first second show ?thesis by blast
  next
    case failed
    then show ?thesis by blast
  qed
qed

theorem C3_bulk_load_only_after_preparation_witness:
  "(\<exists>r\<in>set (sentBy [] (snd (syncGroup (sampleEnv 2) sampleClient [eastName \<mapsto> 0] eastName [''10.0.0.1''] []))).
       isBulkLoad sampleClient r)
   \<and> (\<exists>task h1 task' h2.
         DeleteReferenceSet (sampleEnv 2) sampleClient eastName True [] = (Returned task, h1)
       \<and> pollLoop (sampleEnv 2) sampleClient 5 task h1 = (Returned task', h2)
       \<and> Status task' = ''COMPLETED''
       \<and> prefix h2 (snd (syncGroup (sampleEnv 2) sampleClient [eastName \<mapsto> 0] eastName [''10.0.0.1''] [])))"
proof -
  have run: "\<exists>r\<in>set (sentBy [] (snd (syncGroup (sampleEnv 2) sampleClient [eastName \<mapsto> 0] eastName [''10.0.0.1''] []))).
       isBulkLoad sampleClient r"
    by code_simp
  with C3_bulk_load_only_after_preparation [of "[]" "sampleEnv 2" sampleClient "[eastName \<mapsto> 0]" eastName "[''10.0.0.1'']"]
  show ?thesis by (simp del: Bex_set) blast
qed

section \<open>Facts about the fan-out\<close>

lemma refs_rangeRefSets:
  "refs (rangeRefSets lv a xs st) name \<noteq> None
     \<longleftrightarrow> (\<exists>x\<in>set xs. ReferenceSet.Name x = name \<and> HasPrefix name unixRefSetPrefix)
          \<or> refs st name \<noteq> None"
  by (induction xs arbitrary: a st) (auto simp: Let_def)

lemma refs_unixRefSetsOf:
  "refs (unixRefSetsOf lv allRefSets) name \<noteq> None
     \<longleftrightarrow> (\<exists>x\<in>set allRefSets. ReferenceSet.Name x = name \<and> HasPrefix name unixRefSetPrefix)"
  unfolding unixRefSetsOf_def
  using refs_rangeRefSets[of lv 0 allRefSets "\<lparr>refs = Map.empty, store = Map.empty\<rparr>" name]
  by simp

lemma rangeMap_keys: "rangeMap m kvs \<Longrightarrow> set (map fst kvs) = dom m"
  unfolding rangeMap_def using dom_map_of_conv_image_fst[of kvs] by auto

lemma rangeMap_entry: "rangeMap m kvs \<Longrightarrow> (k, v) \<in> set kvs \<longleftrightarrow> m k = Some v"
  by (auto simp: rangeMap_def)

lemma count_list_distinct: "distinct xs \<Longrightarrow> count_list xs x = (if x \<in> set xs then 1 else 0)"
  by (induction xs) auto

lemma count_orphans:
  "distinct ks \<Longrightarrow>
     count_list (map DeleteOrphan (filter P ks)) (DeleteOrphan n) = (if n \<in> set ks \<and> P n then 1 else 0)"
  by (induction ks) auto

lemma spawned_orphan_iff:
  "DeleteOrphan n \<in> set (spawned sg desiredOrder remoteOrder)
     \<longleftrightarrow> n \<in> fst ` set remoteOrder \<and> sg n = None"
  by (auto simp: spawned_def)

lemma spawned_sync_iff:
  "SyncGroup n s \<in> set (spawned sg desiredOrder remoteOrder) \<longleftrightarrow> (n, s) \<in> set desiredOrder"
  by (auto simp: spawned_def)

lemma count_spawned_orphan:
  assumes "distinct (map fst remoteOrder)"
  shows "count_list (spawned sg desiredOrder remoteOrder) (DeleteOrphan n)
       = (if n \<in> fst ` set remoteOrder \<and> sg n = None then 1 else 0)"
proof -
  have "DeleteOrphan n \<notin> set (map (\<lambda>(group, servers). SyncGroup group servers) desiredOrder)"
    by auto
  then have "count_list (map (\<lambda>(group, servers). SyncGroup group servers) desiredOrder) (DeleteOrphan n) = 0"
    by (rule count_notin)
  with count_orphans[OF assms, of "\<lambda>name. sg name = None" n] show ?thesis
    by (simp add: spawned_def)
qed

lemma full_delete_origin:
  assumes "u \<in> set (spawned serverGroups desiredOrder remoteOrder)"
      and "r \<in> set (sentBy h0 (snd (runUnit w q urs u h0)))" and "isFullDelete r"
  shows "\<exists>n. u = DeleteOrphan n \<and> serverGroups n = None \<and> isDelete w q n False r"
proof (cases u)
  case (SyncGroup name servers)
  with assms(2,3) syncGroup_no_full_delete[of h0 w q urs name servers] show ?thesis by auto
next
  case (DeleteOrphan n)
  with assms(1) have none: "serverGroups n = None" by (simp add: spawned_orphan_iff)
  from deleteOrphan_wire[of w q n h0]
  consider "snd (deleteOrphan w q n h0) = h0"
    | d polls where "snd (deleteOrphan w q n h0) = h0 @ d # polls" "isDelete w q n False d"
        "\<forall>r\<in>set polls. isStatusLookup q r"
    by auto
  then show ?thesis
  proof cases
    case 1
    with assms(2) DeleteOrphan show ?thesis by simp
  next
    case 2
    with assms(2,3) DeleteOrphan isStatusLookup_not_full have "r = d" by auto
    with 2 none DeleteOrphan show ?thesis by simp
  qed
qed

lemma sample_refs:
  "refs (unixRefSetsOf PerIteration [sampleSet eastName, sampleSet westName])
     = [eastName \<mapsto> 0, westName \<mapsto> 1]"
  by (simp add: unixRefSetsOf_def sampleSet_def HasPrefix_def unixRefSetPrefix_def eastName_def westName_def)

text \<open>
  C1. Let a desired group have the name of a remote managed set (a listed set whose name
  carries the managed prefix). Then \<open>main\<close> starts exactly one unit for the group with its
  servers, and, provided the DELETE request can be built, the first request of that unit
  is the delete of that name with \<open>purge_only=true\<close>, and nothing else the unit sends is a
  delete with \<open>purge_only=false\<close>. No orphan-deletion unit is started for the name; and
  whatever unit \<open>main\<close> starts, from whatever wire, a delete with \<open>purge_only=false\<close> it sends
  is the delete of an orphan unit, for a name that is not in the desired mapping. The
  statement is about each unit run on its own to its end, for any replies of the store.
\<close>

theorem C1_desired_set_purged_never_deleted:
  assumes "rangeMap serverGroups desiredOrder"
      and "serverGroups name = Some servers"
      and "s \<in> set allRefSets" and "ReferenceSet.Name s = name" and "HasPrefix name unixRefSetPrefix"
      and "newRequestOK w ''DELETE'' (deleteURL w q name True)"
  shows "count_list (spawned serverGroups desiredOrder remoteOrder) (SyncGroup name servers) = 1
       \<and> (\<exists>d rest. snd (runUnit w q (refs (unixRefSetsOf lv allRefSets)) (SyncGroup name servers) h) = h @ d # rest
            \<and> isDelete w q name True d \<and> (\<forall>r\<in>set rest. \<not> isFullDelete r))
       \<and> DeleteOrphan name \<notin> set (spawned serverGroups desiredOrder remoteOrder)
       \<and> (\<forall>u\<in>set (spawned serverGroups desiredOrder remoteOrder). \<forall>h0.
            \<forall>r\<in>set (sentBy h0 (snd (runUnit w q (refs (unixRefSetsOf lv allRefSets)) u h0))).
              isFullDelete r \<longrightarrow> (\<exists>n. u = DeleteOrphan n \<and> serverGroups n = None \<and> isDelete w q n False r))"
proof -
  let ?urs = "refs (unixRefSetsOf lv allRefSets)"
  from assms(1) have d: "distinct (map fst desiredOrder)" and m: "map_of desiredOrder = serverGroups"
    by (simp_all add: rangeMap_def)
  from d have dk: "distinct desiredOrder" by (simp add: distinct_map)
  from assms(1,2) have "(name, servers) \<in> set desiredOrder" by (simp add: rangeMap_entry)
  with dk have "count_list desiredOrder (name, servers) = 1" by (simp add: count_list_distinct)
  moreover have "inj (\<lambda>(group, servers). SyncGroup group servers)"
    by (auto simp: inj_on_def)
  ultimately have "count_list (map (\<lambda>(group, servers). SyncGroup group servers) desiredOrder) (SyncGroup name servers) = 1"
    using count_list_map_conv[of "\<lambda>(group, servers). SyncGroup group servers" desiredOrder "(name, servers)"]
    by simp
  moreover have "SyncGroup name servers \<notin> set (map DeleteOrphan (filter (\<lambda>name. serverGroups name = None) (map fst remoteOrder)))"
    by auto
  ultimately have one: "count_list (spawned serverGroups desiredOrder remoteOrder) (SyncGroup name servers) = 1"
    by (simp add: spawned_def)
  from assms(3,4,5) have ex: "?urs name \<noteq> None"
    using refs_unixRefSetsOf[of lv allRefSets name] by blast
  from syncGroup_first_request[of ?urs name w q servers h] ex assms(6)
  obtain d rest where dr: "snd (syncGroup w q ?urs name servers h) = h @ d # rest" "isDelete w q name True d"
    by blast
  from syncGroup_no_full_delete[of h w q ?urs name servers] dr(1)
  have "\<forall>r\<in>set rest. \<not> isFullDelete r" by simp
  with dr have first: "\<exists>d rest. snd (runUnit w q ?urs (SyncGroup name servers) h) = h @ d # rest
            \<and> isDelete w q name True d \<and> (\<forall>r\<in>set rest. \<not> isFullDelete r)"
    by auto
  from assms(2) have no: "DeleteOrphan name \<notin> set (spawned serverGroups desiredOrder remoteOrder)"
    by (simp add: spawned_orphan_iff)
  have all: "\<forall>u\<in>set (spawned serverGroups desiredOrder remoteOrder). \<forall>h0.
            \<forall>r\<in>set (sentBy h0 (snd (runUnit w q ?urs u h0))).
              isFullDelete r \<longrightarrow> (\<exists>n. u = DeleteOrphan n \<and> serverGroups n = None \<and> isDelete w q n False r)"
    using full_delete_origin by blast
  from one first no all show ?thesis by blast
qed

theorem C1_desired_set_purged_never_deleted_witness:
  "count_list (spawned [eastName \<mapsto> [''10.0.0.1'']] [(eastName, [''10.0.0.1''])] [(westName, 1), (eastName, 0)])
      (SyncGroup eastName [''10.0.0.1'']) = 1
   \<and> DeleteOrphan eastName \<notin> set (spawned [eastName \<mapsto> [''10.0.0.1'']] [(eastName, [''10.0.0.1''])] [(westName, 1), (eastName, 0)])
   \<and> (\<exists>d rest. snd (runUnit (sampleEnv 2) sampleClient (refs (unixRefSetsOf PerIteration [sampleSet eastName, sampleSet westName]))
                     (SyncGroup eastName [''10.0.0.1'']) []) = d # rest
         \<and> isDelete (sampleEnv 2) sampleClient eastName True d)"
  using C1_desired_set_purged_never_deleted [where serverGroups = "[eastName \<mapsto> [''10.0.0.1'']]" and desiredOrder = "[(eastName, [''10.0.0.1''])]"
      and name = eastName and servers = "[''10.0.0.1'']" and s = "sampleSet eastName"
      and allRefSets = "[sampleSet eastName, sampleSet westName]" and w = "sampleEnv 2" and q = sampleClient
      and remoteOrder = "[(westName, 1), (eastName, 0)]" and h = "[]" and lv = PerIteration]
  by (simp add: rangeMap_def sampleSet_def sampleEnv_def HasPrefix_def unixRefSetPrefix_def eastName_def) blast

text \<open>
  C4. Let a listed set carry the managed prefix and have a name that is not in the desired
  mapping. Then \<open>main\<close> starts exactly one orphan-deletion unit for the name. Provided the
  DELETE request can be built, that unit sends exactly one delete, with
  \<open>purge_only=false\<close>, as its first request, followed by at most 5 requests that are all
  status lookups; when the delete returns a task, the rest of the unit is the polling loop
  on that task with a budget of 5, and the unit finishes exactly when the loop ends with a
  task of status \<open>COMPLETED\<close>. The returned task is polled: when its status is not
  \<open>COMPLETED\<close> (and the GET request can be built), the request right after the delete is
  the status lookup of that task, \<open>GET .../set_delete_tasks/<task.ID>\<close>; when it is already
  \<open>COMPLETED\<close>, the unit finishes on the delete alone. No orphan-deletion unit is started
  for a name of the desired mapping.
\<close>

theorem C4_orphan_deleted_outright_once:
  assumes "rangeMap (refs (unixRefSetsOf lv allRefSets)) remoteOrder"
      and "s \<in> set allRefSets"
      and "HasPrefix (ReferenceSet.Name s) unixRefSetPrefix"
      and "serverGroups (ReferenceSet.Name s) = None"
      and "newRequestOK w ''DELETE'' (deleteURL w q (ReferenceSet.Name s) False)"
  shows "count_list (spawned serverGroups desiredOrder remoteOrder) (DeleteOrphan (ReferenceSet.Name s)) = 1
       \<and> (\<exists>d polls. snd (runUnit w q (refs (unixRefSetsOf lv allRefSets)) (DeleteOrphan (ReferenceSet.Name s)) h)
                       = h @ d # polls
            \<and> isDelete w q (ReferenceSet.Name s) False d
            \<and> length polls \<le> 5 \<and> (\<forall>r\<in>set polls. isStatusLookup q r))
       \<and> (\<forall>task h1. DeleteReferenceSet w q (ReferenceSet.Name s) False h = (Returned task, h1)
            \<longrightarrow> snd (runUnit w q (refs (unixRefSetsOf lv allRefSets)) (DeleteOrphan (ReferenceSet.Name s)) h)
                  = snd (pollLoop w q 5 task h1)
              \<and> (fst (runUnit w q (refs (unixRefSetsOf lv allRefSets)) (DeleteOrphan (ReferenceSet.Name s)) h) = Finished
                   \<longleftrightarrow> (\<exists>t. fst (pollLoop w q 5 task h1) = Returned t \<and> Status t = ''COMPLETED'')))
       \<and> (\<forall>n. serverGroups n \<noteq> None \<longrightarrow> DeleteOrphan n \<notin> set (spawned serverGroups desiredOrder remoteOrder))
       \<and> (\<forall>task h1. DeleteReferenceSet w q (ReferenceSet.Name s) False h = (Returned task, h1)
              \<and> Status task \<noteq> ''COMPLETED'' \<and> newRequestOK w ''GET'' (statusURL q (ID task))
            \<longrightarrow> (\<exists>d l rest.
                   snd (runUnit w q (refs (unixRefSetsOf lv allRefSets)) (DeleteOrphan (ReferenceSet.Name s)) h)
                     = h @ d # l # rest
                 \<and> isDelete w q (ReferenceSet.Name s) False d
                 \<and> isStatusLookupFor q (ID task) l
                 \<and> length rest \<le> 4 \<and> (\<forall>r\<in>set rest. isStatusLookup q r)))
       \<and> (\<forall>task h1. DeleteReferenceSet w q (ReferenceSet.Name s) False h = (Returned task, h1)
              \<and> Status task = ''COMPLETED''
            \<longrightarrow> runUnit w q (refs (unixRefSetsOf lv allRefSets)) (DeleteOrphan (ReferenceSet.Name s)) h
                  = (Finished, h1))"
proof -
  let ?name = "ReferenceSet.Name s"
  let ?urs = "refs (unixRefSetsOf lv allRefSets)"
  from assms(2,3) have "?urs ?name \<noteq> None"
    using refs_unixRefSetsOf[of lv allRefSets ?name] by blast
  with rangeMap_keys[OF assms(1)] have "?name \<in> fst ` set remoteOrder"
    by auto
  moreover from assms(1) have "distinct (map fst remoteOrder)"
    by (simp add: rangeMap_def)
  ultimately have one: "count_list (spawned serverGroups desiredOrder remoteOrder) (DeleteOrphan ?name) = 1"
    using assms(4) by (simp add: count_spawned_orphan)
  from deleteOrphan_wire[of w q ?name h] assms(5)
  have wire: "\<exists>d polls. snd (runUnit w q ?urs (DeleteOrphan ?name) h) = h @ d # polls
            \<and> isDelete w q ?name False d \<and> length polls \<le> 5 \<and> (\<forall>r\<in>set polls. isStatusLookup q r)"
    by simp
  have polled: "\<forall>task h1. DeleteReferenceSet w q ?name False h = (Returned task, h1)
            \<longrightarrow> snd (runUnit w q ?urs (DeleteOrphan ?name) h)
                  = snd (pollLoop w q 5 task h1)
              \<and> (fst (runUnit w q ?urs (DeleteOrphan ?name) h) = Finished
                   \<longleftrightarrow> (\<exists>t. fst (pollLoop w q 5 task h1) = Returned t \<and> Status t = ''COMPLETED''))"
    using deleteOrphan_after_delete[of w q ?name h] by simp
  have never: "\<forall>n. serverGroups n \<noteq> None \<longrightarrow> DeleteOrphan n \<notin> set (spawned serverGroups desiredOrder remoteOrder)"
    by (simp add: spawned_orphan_iff)
  have lookup: "\<exists>d l rest. snd (runUnit w q ?urs (DeleteOrphan ?name) h) = h @ d # l # rest
                 \<and> isDelete w q ?name False d
                 \<and> isStatusLookupFor q (ID task) l
                 \<and> length rest \<le> 4 \<and> (\<forall>r\<in>set rest. isStatusLookup q r)"
    if del: "DeleteReferenceSet w q ?name False h = (Returned task, h1)"
      and st: "Status task \<noteq> ''COMPLETED''"
      and ok: "newRequestOK w ''GET'' (statusURL q (ID task))"
    for task h1
  proof -
    from DeleteReferenceSet_Returned_wire[OF del]
    obtain d where d: "h1 = h @ [d]" "isDelete w q ?name False d" by blast
    from pollLoop_first_lookup[OF st _ ok, of 5 h1]
    obtain l rest where p: "snd (pollLoop w q 5 task h1) = h1 @ l # rest"
      "isStatusLookupFor q (ID task) l" "length rest \<le> 4" "\<forall>r\<in>set rest. isStatusLookup q r"
      by auto
    from deleteOrphan_after_delete[OF del] have "snd (deleteOrphan w q ?name h) = snd (pollLoop w q 5 task h1)"
      by simp
    with d p show ?thesis by auto
  qed
  have finished: "runUnit w q ?urs (DeleteOrphan ?name) h = (Finished, h1)"
    if del: "DeleteReferenceSet w q ?name False h = (Returned task, h1)"
      and st: "Status task = ''COMPLETED''"
    for task h1
    using del st by (simp add: deleteOrphan_def pollLoop_completed)
  from lookup have lookup': "\<forall>task h1. DeleteReferenceSet w q ?name False h = (Returned task, h1)
              \<and> Status task \<noteq> ''COMPLETED'' \<and> newRequestOK w ''GET'' (statusURL q (ID task))
            \<longrightarrow> (\<exists>d l rest. snd (runUnit w q ?urs (DeleteOrphan ?name) h) = h @ d # l # rest
                 \<and> isDelete w q ?name False d
                 \<and> isStatusLookupFor q (ID task) l
                 \<and> length rest \<le> 4 \<and> (\<forall>r\<in>set rest. isStatusLookup q r))"
    by blast
  from finished have finished': "\<forall>task h1. DeleteReferenceSet w q ?name False h = (Returned task, h1)
              \<and> Status task = ''COMPLETED''
            \<longrightarrow> runUnit w q ?urs (DeleteOrphan ?name) h = (Finished, h1)"
    by blast
  from one wire polled never lookup' finished' show ?thesis
    by (intro conjI)
qed

lemma sample_orphan_run:
  "fst (DeleteReferenceSet (sampleEnv 2) sampleClient westName False []) = Returned (sampleTask ''QUEUED'')"
  "map URL (snd (deleteOrphan (sampleEnv 2) sampleClient westName []))
     = [''https://qradar/api/reference_data/sets/Managed+UNIX+Devices+-+west?purge_only=false'',
        ''https://qradar/api/reference_data/set_delete_tasks/7'',
        ''https://qradar/api/reference_data/set_delete_tasks/7'']"
  "fst (deleteOrphan (sampleEnv 2) sampleClient westName []) = Finished"
  by code_simp+

theorem C4_orphan_deleted_outright_once_witness:
  "count_list (spawned [eastName \<mapsto> [''10.0.0.1'']] [(eastName, [''10.0.0.1''])] [(westName, 1), (eastName, 0)])
      (DeleteOrphan westName) = 1
   \<and> fst (DeleteReferenceSet (sampleEnv 2) sampleClient westName False []) = Returned (sampleTask ''QUEUED'')
   \<and> Status (sampleTask ''QUEUED'') \<noteq> ''COMPLETED''
   \<and> (\<exists>d l rest.
         snd (runUnit (sampleEnv 2) sampleClient
                (refs (unixRefSetsOf PerIteration [sampleSet eastName, sampleSet westName]))
                (DeleteOrphan westName) []) = d # l # rest
       \<and> isDelete (sampleEnv 2) sampleClient westName False d
       \<and> isStatusLookupFor sampleClient (ID (sampleTask ''QUEUED'')) l
       \<and> length rest \<le> 4)
   \<and> map URL (snd (runUnit (sampleEnv 2) sampleClient
                (refs (unixRefSetsOf PerIteration [sampleSet eastName, sampleSet westName]))
                (DeleteOrphan westName) []))
       = [''https://qradar/api/reference_data/sets/Managed+UNIX+Devices+-+west?purge_only=false'',
          ''https://qradar/api/reference_data/set_delete_tasks/7'',
          ''https://qradar/api/reference_data/set_delete_tasks/7'']
   \<and> fst (runUnit (sampleEnv 2) sampleClient
                (refs (unixRefSetsOf PerIteration [sampleSet eastName, sampleSet westName]))
                (DeleteOrphan westName) []) = Finished"
proof -
  let ?w = "sampleEnv 2" and ?q = sampleClient
  let ?sets = "[sampleSet eastName, sampleSet westName]"
  let ?sg = "[eastName \<mapsto> [''10.0.0.1'']]"
  let ?h1 = "snd (DeleteReferenceSet ?w ?q westName False [])"
  have a1: "rangeMap (refs (unixRefSetsOf PerIteration ?sets)) [(westName, 1), (eastName, 0)]"
    unfolding rangeMap_def sample_refs by (simp add: eastName_def westName_def)
  have a2: "sampleSet westName \<in> set ?sets"
    by simp
  have nm: "ReferenceSet.Name (sampleSet westName) = westName"
    by (simp add: sampleSet_def)
  have a3: "HasPrefix (ReferenceSet.Name (sampleSet westName)) unixRefSetPrefix"
    by (simp add: sampleSet_def HasPrefix_def unixRefSetPrefix_def westName_def)
  have a4: "?sg (ReferenceSet.Name (sampleSet westName)) = None"
    by (simp add: sampleSet_def eastName_def westName_def)
  have a5: "newRequestOK ?w ''DELETE'' (deleteURL ?w ?q (ReferenceSet.Name (sampleSet westName)) False)"
    by (simp add: sampleEnv_def)
  note c4 = C4_orphan_deleted_outright_once
    [where lv = PerIteration and allRefSets = ?sets and remoteOrder = "[(westName, 1), (eastName, 0)]"
       and s = "sampleSet westName" and serverGroups = ?sg and w = ?w and q = ?q
       and desiredOrder = "[(eastName, [''10.0.0.1''])]" and h = "[]",
     OF a1 a2 a3 a4 a5, unfolded nm]
  have del: "DeleteReferenceSet ?w ?q westName False [] = (Returned (sampleTask ''QUEUED''), ?h1)"
    using sample_orphan_run(1) by (metis prod.collapse)
  have st: "Status (sampleTask ''QUEUED'') \<noteq> ''COMPLETED''"
    by (simp add: sampleTask_def)
  have ok: "newRequestOK ?w ''GET'' (statusURL ?q (ID (sampleTask ''QUEUED'')))"
    by (simp add: sampleEnv_def)
  from c4 have one: "count_list (spawned ?sg [(eastName, [''10.0.0.1''])] [(westName, 1), (eastName, 0)])
      (DeleteOrphan westName) = 1"
    by (rule conjunct1)
  from c4 have "\<forall>task h1. DeleteReferenceSet ?w ?q westName False [] = (Returned task, h1)
              \<and> Status task \<noteq> ''COMPLETED'' \<and> newRequestOK ?w ''GET'' (statusURL ?q (ID task))
            \<longrightarrow> (\<exists>d l rest.
                   snd (runUnit ?w ?q (refs (unixRefSetsOf PerIteration ?sets)) (DeleteOrphan westName) [])
                     = [] @ d # l # rest
                 \<and> isDelete ?w ?q westName False d
                 \<and> isStatusLookupFor ?q (ID task) l
                 \<and> length rest \<le> 4 \<and> (\<forall>r\<in>set rest. isStatusLookup ?q r))"
    by (elim conjE)
  with del st ok
  have lookup: "\<exists>d l rest.
         snd (runUnit ?w ?q (refs (unixRefSetsOf PerIteration ?sets)) (DeleteOrphan westName) []) = d # l # rest
       \<and> isDelete ?w ?q westName False d
       \<and> isStatusLookupFor ?q (ID (sampleTask ''QUEUED'')) l
       \<and> length rest \<le> 4"
    by fastforce
  from one sample_orphan_run(1) st lookup sample_orphan_run(2,3) show ?thesis
    by (simp add: runUnit_def)
qed

section \<open>Facts about the remote-state mapping\<close>

text \<open>With one variable for the whole loop, every key maps to the last listed set.\<close>

lemma refs_per_loop:
  "refs (rangeRefSets PerLoop a xs st) name =
     (if \<exists>x\<in>set xs. ReferenceSet.Name x = name \<and> HasPrefix name unixRefSetPrefix then Some a
      else refs st name)"
  by (induction xs arbitrary: st) (auto simp: Let_def)

lemma store_per_loop:
  "store (rangeRefSets PerLoop a xs st) = (if xs = [] then store st else (store st)(a \<mapsto> last xs))"
  by (induction xs arbitrary: st) (auto simp: Let_def)

lemma metadataOf_per_loop:
  "metadataOf (unixRefSetsOf PerLoop allRefSets) name
     = (if \<exists>x\<in>set allRefSets. ReferenceSet.Name x = name \<and> HasPrefix name unixRefSetPrefix
        then Some (last allRefSets) else None)"
  by (auto simp: metadataOf_def unixRefSetsOf_def refs_per_loop store_per_loop)

text \<open>
  With a fresh variable in every iteration, the addresses already in the map are below
  the one in use and are not written again: a key maps to the last listed set of its name.
\<close>

lemma find_snoc:
  "find P (xs @ [x]) = (case find P xs of Some y \<Rightarrow> Some y | None \<Rightarrow> if P x then Some x else None)"
  by (induction xs) auto

lemma find_SomeD: "find P xs = Some x \<Longrightarrow> x \<in> set xs \<and> P x"
  by (induction xs) (auto split: if_splits)

lemma metadataOf_per_iteration_from:
  assumes "\<forall>n b. refs st n = Some b \<longrightarrow> b < a"
  shows "metadataOf (rangeRefSets PerIteration a xs st) name
       = (case find (\<lambda>s. ReferenceSet.Name s = name \<and> HasPrefix name unixRefSetPrefix) (rev xs) of
            Some s \<Rightarrow> Some s
          | None \<Rightarrow> metadataOf st name)"
  using assms
proof (induction xs arbitrary: a st)
  case Nil
  show ?case by simp
next
  case (Cons x xs)
  define P :: "ReferenceSet \<Rightarrow> bool" where "P = (\<lambda>s. ReferenceSet.Name s = name \<and> HasPrefix name unixRefSetPrefix)"
  define st2 where "st2 =
    (if HasPrefix (ReferenceSet.Name x) unixRefSetPrefix
     then st\<lparr>store := (store st)(a \<mapsto> x), refs := (refs st)(ReferenceSet.Name x \<mapsto> a)\<rparr>
     else st\<lparr>store := (store st)(a \<mapsto> x)\<rparr>)"
  from Cons.prems have bound: "\<forall>n b. refs st2 n = Some b \<longrightarrow> b < Suc a"
    by (auto simp: st2_def less_Suc_eq)
  have step: "metadataOf st2 name = (if P x then Some x else metadataOf st name)"
    using Cons.prems by (auto simp: st2_def P_def metadataOf_def split: option.splits)
  have unfold: "rangeRefSets PerIteration a (x # xs) st = rangeRefSets PerIteration (Suc a) xs st2"
    by (simp add: Let_def st2_def)
  have ih: "metadataOf (rangeRefSets PerIteration (Suc a) xs st2) name
      = (case find P (rev xs) of Some s \<Rightarrow> Some s | None \<Rightarrow> metadataOf st2 name)"
    unfolding P_def by (rule Cons.IH[OF bound])
  have snoc: "find P (rev (x # xs))
      = (case find P (rev xs) of Some y \<Rightarrow> Some y | None \<Rightarrow> if P x then Some x else None)"
    by (simp add: find_snoc)
  have "metadataOf (rangeRefSets PerIteration a (x # xs) st) name
      = (case find P (rev (x # xs)) of Some s \<Rightarrow> Some s | None \<Rightarrow> metadataOf st name)"
    unfolding unfold ih snoc
    by (cases "find P (rev xs)") (simp_all add: step)
  then show ?case
    by (simp only: P_def)
qed

lemma metadataOf_per_iteration:
  "metadataOf (unixRefSetsOf PerIteration allRefSets) name
     = find (\<lambda>s. ReferenceSet.Name s = name \<and> HasPrefix name unixRefSetPrefix) (rev allRefSets)"
  using metadataOf_per_iteration_from[of "\<lparr>refs = Map.empty, store = Map.empty\<rparr>" 0 allRefSets name]
  by (simp add: unixRefSetsOf_def metadataOf_def split: option.splits)

lemma find_unique:
  assumes "distinct (map f xs)" and "s \<in> set xs" and "Q"
  shows "find (\<lambda>t. f t = f s \<and> Q) xs = Some s"
  using assms by (induction xs) (auto simp: image_iff)

text \<open>
  C7. The keys of the remote-state mapping are exactly the names of the listed sets that
  start with the managed prefix \<open>"Managed UNIX Devices - "\<close>, under either meaning of the
  loop. Under the loop semantics of Go 1.22 and later (a fresh \<open>set\<close> in every iteration),
  which is what a current toolchain applies to a source tree that declares no language
  version, a key maps to the metadata of the last listed set bearing that name: what a
  name maps to is a listed set of that name, every key maps to something, and when the
  listed names are distinct every managed set's name maps to that set's own metadata.
  (Under the semantics before Go 1.22 the one loop variable is shared and every key maps
  to the last listed set, see \<open>metadataOf_per_loop\<close>.)
\<close>

theorem C7_names_map_to_own_metadata:
  "(refs (unixRefSetsOf lv allRefSets) name \<noteq> None
      \<longleftrightarrow> (\<exists>s\<in>set allRefSets. ReferenceSet.Name s = name \<and> HasPrefix name unixRefSetPrefix))
   \<and> metadataOf (unixRefSetsOf PerIteration allRefSets) name
       = find (\<lambda>s. ReferenceSet.Name s = name \<and> HasPrefix name unixRefSetPrefix) (rev allRefSets)
   \<and> (\<forall>s. metadataOf (unixRefSetsOf PerIteration allRefSets) name = Some s
          \<longrightarrow> s \<in> set allRefSets \<and> ReferenceSet.Name s = name \<and> HasPrefix name unixRefSetPrefix)
   \<and> (refs (unixRefSetsOf PerIteration allRefSets) name \<noteq> None
          \<longrightarrow> (\<exists>s. metadataOf (unixRefSetsOf PerIteration allRefSets) name = Some s))
   \<and> (\<forall>s\<in>set allRefSets.
          distinct (map ReferenceSet.Name allRefSets) \<and> HasPrefix (ReferenceSet.Name s) unixRefSetPrefix
          \<longrightarrow> metadataOf (unixRefSetsOf PerIteration allRefSets) (ReferenceSet.Name s) = Some s)"
proof -
  let ?P = "\<lambda>n s. ReferenceSet.Name s = n \<and> HasPrefix n unixRefSetPrefix"
  have keys: "refs (unixRefSetsOf lv allRefSets) name \<noteq> None
      \<longleftrightarrow> (\<exists>s\<in>set allRefSets. ReferenceSet.Name s = name \<and> HasPrefix name unixRefSetPrefix)"
    by (rule refs_unixRefSetsOf)
  have exact: "metadataOf (unixRefSetsOf PerIteration allRefSets) name = find (?P name) (rev allRefSets)"
    by (rule metadataOf_per_iteration)
  have own: "\<forall>s. metadataOf (unixRefSetsOf PerIteration allRefSets) name = Some s
          \<longrightarrow> s \<in> set allRefSets \<and> ReferenceSet.Name s = name \<and> HasPrefix name unixRefSetPrefix"
  proof (intro allI impI)
    fix s
    assume "metadataOf (unixRefSetsOf PerIteration allRefSets) name = Some s"
    with exact have "find (?P name) (rev allRefSets) = Some s" by simp
    then have "s \<in> set (rev allRefSets) \<and> ?P name s"
      by (rule find_SomeD)
    then show "s \<in> set allRefSets \<and> ReferenceSet.Name s = name \<and> HasPrefix name unixRefSetPrefix"
      by simp
  qed
  have total: "refs (unixRefSetsOf PerIteration allRefSets) name \<noteq> None
          \<longrightarrow> (\<exists>s. metadataOf (unixRefSetsOf PerIteration allRefSets) name = Some s)"
  proof
    assume "refs (unixRefSetsOf PerIteration allRefSets) name \<noteq> None"
    then have "\<exists>s\<in>set allRefSets. ?P name s"
      using refs_unixRefSetsOf[of PerIteration allRefSets name] by blast
    then have "find (?P name) (rev allRefSets) \<noteq> None"
      by (auto simp: find_None_iff)
    with exact show "\<exists>s. metadataOf (unixRefSetsOf PerIteration allRefSets) name = Some s"
      by auto
  qed
  have uniq: "\<forall>s\<in>set allRefSets.
          distinct (map ReferenceSet.Name allRefSets) \<and> HasPrefix (ReferenceSet.Name s) unixRefSetPrefix
          \<longrightarrow> metadataOf (unixRefSetsOf PerIteration allRefSets) (ReferenceSet.Name s) = Some s"
  proof (intro ballI impI)
    fix s
    assume s: "s \<in> set allRefSets"
      and h: "distinct (map ReferenceSet.Name allRefSets) \<and> HasPrefix (ReferenceSet.Name s) unixRefSetPrefix"
    from h have "distinct (map ReferenceSet.Name (rev allRefSets))"
      by (simp add: rev_map[symmetric])
    moreover from s have "s \<in> set (rev allRefSets)"
      by simp
    moreover from h have "HasPrefix (ReferenceSet.Name s) unixRefSetPrefix"
      by simp
    ultimately have "find (?P (ReferenceSet.Name s)) (rev allRefSets) = Some s"
      by (rule find_unique)
    then show "metadataOf (unixRefSetsOf PerIteration allRefSets) (ReferenceSet.Name s) = Some s"
      by (simp only: metadataOf_per_iteration)
  qed
  from keys exact own total uniq show ?thesis
    by (intro conjI)
qed

theorem C7_names_map_to_own_metadata_witness:
  "dom (refs (unixRefSetsOf PerIteration [sampleSet eastName, unrelatedSet, sampleSet westName]))
     = {eastName, westName}
   \<and> metadataOf (unixRefSetsOf PerIteration [sampleSet eastName, unrelatedSet, sampleSet westName]) eastName
       = Some (sampleSet eastName)
   \<and> metadataOf (unixRefSetsOf PerIteration [sampleSet eastName, unrelatedSet, sampleSet westName]) westName
       = Some (sampleSet westName)
   \<and> metadataOf (unixRefSetsOf PerIteration [sampleSet eastName, unrelatedSet, sampleSet westName])
        (ReferenceSet.Name unrelatedSet) = None"
proof -
  let ?sets = "[sampleSet eastName, unrelatedSet, sampleSet westName]"
  have d: "distinct (map ReferenceSet.Name ?sets)"
    by (simp add: sampleSet_def unrelatedSet_def eastName_def westName_def)
  have pe: "HasPrefix (ReferenceSet.Name (sampleSet eastName)) unixRefSetPrefix"
    and pw: "HasPrefix (ReferenceSet.Name (sampleSet westName)) unixRefSetPrefix"
    and pu: "\<not> HasPrefix (ReferenceSet.Name unrelatedSet) unixRefSetPrefix"
    by (simp_all add: sampleSet_def unrelatedSet_def HasPrefix_def unixRefSetPrefix_def
        eastName_def westName_def)
  have nm: "ReferenceSet.Name (sampleSet n) = n" for n
    by (simp add: sampleSet_def)
  note c7 = C7_names_map_to_own_metadata [of PerIteration ?sets]
  from c7 [of eastName] have own: "\<forall>s\<in>set ?sets.
          distinct (map ReferenceSet.Name ?sets) \<and> HasPrefix (ReferenceSet.Name s) unixRefSetPrefix
          \<longrightarrow> metadataOf (unixRefSetsOf PerIteration ?sets) (ReferenceSet.Name s) = Some s"
    by (elim conjE)
  from own d pe have e: "metadataOf (unixRefSetsOf PerIteration ?sets) eastName = Some (sampleSet eastName)"
    by (simp add: nm)
  from own d pw have w: "metadataOf (unixRefSetsOf PerIteration ?sets) westName = Some (sampleSet westName)"
    by (simp add: nm)
  from c7 [of "ReferenceSet.Name unrelatedSet"] pu
  have u: "metadataOf (unixRefSetsOf PerIteration ?sets) (ReferenceSet.Name unrelatedSet) = None"
    by (metis not_Some_eq)
  have k: "dom (refs (unixRefSetsOf PerIteration ?sets)) = {eastName, westName}"
    by (auto simp: unixRefSetsOf_def sampleSet_def unrelatedSet_def HasPrefix_def unixRefSetPrefix_def
        eastName_def westName_def split: if_splits)
  from k e w u show ?thesis by simp
qed

section \<open>Facts about the exit status\<close>

text \<open>
  C8. With the base URL and the token present, a failure of the extraction and a failure
  of the listing both end the process in \<open>log.Fatalf\<close>, that is with status 1: the
  \<open>os.Exit(2)\<close> and \<open>os.Exit(3)\<close> written after it are never reached. A missing base URL or
  token ends the process with status 1.
\<close>

theorem C8_fatal_preflight_exits_with_status_1:
  assumes "url \<noteq> []" and "token \<noteq> []"
  shows "(extractServerGroups fs file = Failed err \<longrightarrow> fst (preflight w fs url file token h) = Exited 1)
       \<and> (\<forall>sg. extractServerGroups fs file = Returned sg
               \<and> fst (ReferenceSets w (NewClient url token) h) = Failed err
             \<longrightarrow> fst (preflight w fs url file token h) = Exited 1)
       \<and> fst (preflight w fs [] file token h) = Exited 1
       \<and> fst (preflight w fs url file [] h) = Exited 1"
  using assms
  by (cases "ReferenceSets w (NewClient url token) h")
     (auto simp: preflight_def os_Exit_def log_Fatalf_def)

theorem C8_fatal_preflight_exits_with_status_1_witness:
  "extractServerGroups (\<lambda>_. OpenFails) ''servers.csv'' = Failed ErrOpeningCsv
   \<and> fst (preflight (sampleEnv 0) (\<lambda>_. OpenFails) ''https://qradar'' ''servers.csv'' ''token'' []) = Exited 1"
  using C8_fatal_preflight_exits_with_status_1 [of "''https://qradar''" "''token''" "\<lambda>_. OpenFails" "''servers.csv''" ErrOpeningCsv "sampleEnv 0" "[]"]
  by (simp add: extractServerGroups_def)

end
